theory Spec2Isabelle
  imports Main "HOL-Library.Word"
begin

unbundle bit_operations_syntax

section \<open>Machine types\<close>

type_synonym u8 = "8 word"
type_synonym s16 = "16 word"
type_synonym u32 = "32 word"
type_synonym s32 = "32 word"
type_synonym u64 = "64 word"
type_synonym size_t = "64 word"

text \<open>A \<^verbatim>\<open>float_le\<close> field is kept as its 32-bit pattern.\<close>

type_synonym float_le = "32 word"

text \<open>Fields keep the names of the source. Where two structures of the source share a field
  name, all but one carry a prefix naming their structure.\<close>

section \<open>Output stream (stream.cpp)\<close>

text \<open>Modelled from the spec: \<^verbatim>\<open>Buffer\<close> (buffer.h is not among the sources) is a tag and the
  interleaved samples of one frame.\<close>

type_synonym Tag = u64

record Buffer =
  buffer_tag :: Tag
  buffer_samples :: "s16 list"

definition GetTag :: "Buffer \<Rightarrow> Tag" where
  "GetTag b = buffer_tag b"

definition GetSamples :: "Buffer \<Rightarrow> s16 list" where
  "GetSamples b = buffer_samples b"

text \<open>Modelled from the spec: the declarations of stream.h (not among the sources). The stream
  has the states Stopped and Playing, starts Stopped, and \<^verbatim>\<open>IsPlaying\<close> tests for Playing. The
  formats are the three cases of the switch in \<^verbatim>\<open>Stream::GetNumChannels\<close>.\<close>

datatype State = Stopped | Playing

datatype Format = Mono16 | Stereo16 | Multi51Channel16

text \<open>Calls into the external collaborators (sink, scheduler, release callback), in the order
  they are made.\<close>

datatype ExternCall =
    SinkFlush
  | SinkEnqueueSamples u32 "s16 list"
  | ScheduleEvent int
  | ReleaseCallback

record Stream =
  stream_sample_rate :: u32
  format :: Format
  state :: State
  game_volume :: float_le
  active_buffer :: "Buffer option"
  queued_buffers :: "Buffer list"
  released_buffers :: "Buffer list"
  calls :: "ExternCall list"

text \<open>\<^verbatim>\<open>VolumeAdjustSamples\<close> and \<^verbatim>\<open>GetBufferReleaseCycles\<close> compute in floating point from
  global settings; they are parameters.\<close>

record StreamDeps =
  VolumeAdjustSamples :: "s16 list \<Rightarrow> float_le \<Rightarrow> s16 list"
  GetBufferReleaseCycles :: "Stream \<Rightarrow> Buffer \<Rightarrow> int"

definition MaxAudioBufferCount :: nat where
  "MaxAudioBufferCount = 32"

definition GetNumChannels :: "Stream \<Rightarrow> u32" where
  "GetNumChannels s = (case format s of Mono16 \<Rightarrow> 1 | Stereo16 \<Rightarrow> 2 | Multi51Channel16 \<Rightarrow> 6)"

definition IsPlaying :: "Stream \<Rightarrow> bool" where
  "IsPlaying s = (state s = Playing)"

definition GetState :: "Stream \<Rightarrow> State" where
  "GetState s = state s"

definition PlayNextBuffer :: "StreamDeps \<Rightarrow> Stream \<Rightarrow> Stream" where
  "PlayNextBuffer d s =
     (if \<not> IsPlaying s then s\<lparr>calls := calls s @ [SinkFlush]\<rparr>
      else if active_buffer s \<noteq> None then s
      else (case queued_buffers s of
              [] \<Rightarrow> s\<lparr>calls := calls s @ [SinkFlush]\<rparr>
            | b # rest \<Rightarrow>
                (let b' = b\<lparr>buffer_samples := VolumeAdjustSamples d (GetSamples b) (game_volume s)\<rparr>
                 in s\<lparr>active_buffer := Some b',
                      queued_buffers := rest,
                      calls := calls s @
                        [SinkEnqueueSamples (GetNumChannels s) (GetSamples b'),
                         ScheduleEvent (GetBufferReleaseCycles d s b')]\<rparr>)))"

definition Play :: "StreamDeps \<Rightarrow> Stream \<Rightarrow> Stream" where
  "Play d s = PlayNextBuffer d (s\<lparr>state := Playing\<rparr>)"

definition SetVolume :: "float_le \<Rightarrow> Stream \<Rightarrow> Stream" where
  "SetVolume volume s = s\<lparr>game_volume := volume\<rparr>"

datatype error =
    ReadPastInput
  | WritePastOutput
  | IndexOutOfRange
  | SliceOutOfRange
  | Unimplemented
  | AssertFailed
  | CastOutOfRange

text \<open>\<^verbatim>\<open>ReleaseActiveBuffer\<close> is the scheduler's release event. Its \<^verbatim>\<open>ASSERT\<close> is an error
  branch.\<close>

definition ReleaseActiveBuffer :: "StreamDeps \<Rightarrow> Stream \<Rightarrow> error + Stream" where
  "ReleaseActiveBuffer d s =
     (case active_buffer s of
        None \<Rightarrow> Inl AssertFailed
      | Some b \<Rightarrow>
          Inr (PlayNextBuffer d
                 (s\<lparr>released_buffers := released_buffers s @ [b],
                    active_buffer := None,
                    calls := calls s @ [ReleaseCallback]\<rparr>)))"

text \<open>\<^verbatim>\<open>QueueBuffer\<close> takes the buffer by rvalue reference. The result is the returned flag,
  what the caller's pointer holds afterwards (\<open>None\<close> once it has been moved into the queue)
  and the stream.\<close>

definition QueueBuffer :: "StreamDeps \<Rightarrow> Buffer \<Rightarrow> Stream \<Rightarrow> bool \<times> Buffer option \<times> Stream" where
  "QueueBuffer d buffer s =
     (if length (queued_buffers s) < MaxAudioBufferCount
      then (True, None, PlayNextBuffer d (s\<lparr>queued_buffers := queued_buffers s @ [buffer]\<rparr>))
      else (False, Some buffer, s))"

text \<open>The loop of \<^verbatim>\<open>GetTagsAndReleaseBuffers\<close>: \<open>count\<close> runs up to \<open>max_count\<close> while the
  released queue is not empty.\<close>

function GetTags_loop :: "nat \<Rightarrow> nat \<Rightarrow> Tag list \<Rightarrow> Buffer list \<Rightarrow> Tag list \<times> Buffer list" where
  "GetTags_loop count max_count tags released =
     (if count < max_count \<and> released \<noteq> []
      then GetTags_loop (count + 1) max_count (tags @ [GetTag (hd released)]) (tl released)
      else (tags, released))"
  by pat_completeness auto
termination
  by (relation "measure (\<lambda>(count, max_count, tags, released). max_count - count)") auto

declare GetTags_loop.simps [simp del]

definition GetTagsAndReleaseBuffers :: "nat \<Rightarrow> Stream \<Rightarrow> Tag list \<times> Stream" where
  "GetTagsAndReleaseBuffers max_count s =
     (let (tags, released) = GetTags_loop 0 max_count [] (released_buffers s)
      in (tags, s\<lparr>released_buffers := released\<rparr>))"

section \<open>Wire structures (audio_renderer.h)\<close>

text \<open>The enumerations are stored in guest-written fields, which can hold any value of the
  underlying type; they are kept as words, with the enumerators as constants.\<close>

definition PlayState_Started :: u8 where "PlayState_Started = 0"
definition PlayState_Stopped :: u8 where "PlayState_Stopped = 1"
definition PlayState_Paused :: u8 where "PlayState_Paused = 2"

definition Effect_None :: u8 where "Effect_None = 0"
definition Effect_Aux :: u8 where "Effect_Aux = 2"

definition EffectStatus_None :: u8 where "EffectStatus_None = 0"
definition EffectStatus_New :: u8 where "EffectStatus_New = 1"

definition Invalid :: u32 where "Invalid = 0x0"
definition Unknown :: u32 where "Unknown = 0x1"
definition RequestDetach :: u32 where "RequestDetach = 0x2"
definition Detached :: u32 where "Detached = 0x3"
definition RequestAttach :: u32 where "RequestAttach = 0x4"
definition Attached :: u32 where "Attached = 0x5"
definition Released :: u32 where "Released = 0x6"

record AudioRendererParameter =
  param_sample_rate :: u32
  param_sample_count :: u32
  mix_buffer_count :: u32
  submix_count :: u32
  voice_count :: u32
  sink_count :: u32
  effect_count :: u32
  performance_frame_count :: u32
  is_voice_drop_enabled :: u8
  unknown_21 :: u8
  unknown_22 :: u8
  execution_mode :: u8
  splitter_count :: u32
  num_splitter_send_channels :: u32
  unknown_30 :: u32
  param_revision :: u32

record MemoryPoolEntry =
  mpe_state :: u32
  unknown_4 :: u32
  unknown_8 :: u32
  unknown_c :: u32

record MemoryPoolInfo =
  pool_address :: u64
  pool_size :: u64
  pool_state :: u32

record BiquadFilter =
  enable :: u8
  numerator :: "s16 list"
  denominator :: "s16 list"

record WaveBuffer =
  buffer_addr :: u64
  buffer_sz :: u64
  start_sample_offset :: s32
  end_sample_offset :: s32
  is_looping :: u8
  end_of_stream :: u8
  sent_to_server :: u8
  context_addr :: u64
  context_sz :: u64

text \<open>\<^verbatim>\<open>std::array<T, 4>\<close>: four elements, and an index that is checked.\<close>

datatype 'a array4 = Array4 'a 'a 'a 'a

fun array4_at :: "'a array4 \<Rightarrow> nat \<Rightarrow> 'a option" where
  "array4_at (Array4 a b c d) i =
     (if i = 0 then Some a else if i = 1 then Some b else if i = 2 then Some c
      else if i = 3 then Some d else None)"

record VoiceInfo =
  voice_id :: u32
  node_id :: u32
  is_new :: u8
  info_is_in_use :: u8
  play_state :: u8
  sample_format :: u8
  sample_rate :: u32
  priority :: u32
  sorting_order :: u32
  channel_count :: u32
  pitch :: float_le
  volume :: float_le
  biquad_filter :: "BiquadFilter list"
  wave_buffer_count :: u32
  wave_buffer_head :: u32
  additional_params_addr :: u64
  additional_params_sz :: u64
  mix_id :: u32
  splitter_info_id :: u32
  wave_buffer :: "WaveBuffer array4"
  voice_channel_resource_ids :: "u32 list"

record VoiceOutStatus =
  played_sample_count :: u64
  wave_buffer_consumed :: u32
  voice_drops_count :: u32

record ChannelInfoIn =
  channel_id :: u32
  mix :: "float_le list"
  is_used :: u8

text \<open>The union of \<^verbatim>\<open>EffectInStatus\<close> is kept as its 0xa0 raw bytes; the fields of the
  \<^verbatim>\<open>AuxInfo\<close> view are read from them at their offsets.\<close>

record EffectInStatus =
  effect_type :: u8
  effect_is_new :: u8
  is_enabled :: u8
  effect_mix_id :: u32
  buffer_base :: u64
  effect_buffer_sz :: u64
  effect_priority :: s32
  raw :: "u8 list"

record EffectOutStatus =
  eos_state :: u8

record UpdateDataHeader =
  revision :: u32
  behavior_size :: u32
  memory_pools_size :: u32
  voices_size :: u32
  voice_resource_size :: u32
  effects_size :: u32
  mixes_size :: u32
  sinks_size :: u32
  performance_manager_size :: u32
  frame_count :: u32
  total_size :: u32

definition sizeof_MemoryPoolEntry :: nat where "sizeof_MemoryPoolEntry = 0x10"
definition sizeof_MemoryPoolInfo :: nat where "sizeof_MemoryPoolInfo = 0x20"
definition sizeof_BiquadFilter :: nat where "sizeof_BiquadFilter = 0xc"
definition sizeof_WaveBuffer :: nat where "sizeof_WaveBuffer = 0x38"
definition sizeof_VoiceInfo :: nat where "sizeof_VoiceInfo = 0x170"
definition sizeof_VoiceOutStatus :: nat where "sizeof_VoiceOutStatus = 0x10"
definition sizeof_ChannelInfoIn :: nat where "sizeof_ChannelInfoIn = 0x70"
definition sizeof_EffectInStatus :: nat where "sizeof_EffectInStatus = 0xc0"
definition sizeof_EffectOutStatus :: nat where "sizeof_EffectOutStatus = 0x10"
definition sizeof_UpdateDataHeader :: nat where "sizeof_UpdateDataHeader = 0x40"

subsection \<open>Little-endian fields of a byte image\<close>

definition rd_u8 :: "u8 list \<Rightarrow> nat \<Rightarrow> u8" where
  "rd_u8 bs off = bs ! off"

definition rd_u16 :: "u8 list \<Rightarrow> nat \<Rightarrow> 16 word" where
  "rd_u16 bs off = ucast (bs ! off) OR push_bit 8 (ucast (bs ! (off + 1)))"

definition rd_u32 :: "u8 list \<Rightarrow> nat \<Rightarrow> u32" where
  "rd_u32 bs off =
     ucast (bs ! off) OR push_bit 8 (ucast (bs ! (off + 1))) OR
     push_bit 16 (ucast (bs ! (off + 2))) OR push_bit 24 (ucast (bs ! (off + 3)))"

definition rd_u64 :: "u8 list \<Rightarrow> nat \<Rightarrow> u64" where
  "rd_u64 bs off = ucast (rd_u32 bs off) OR push_bit 32 (ucast (rd_u32 bs (off + 4)))"

definition wr_u32 :: "u32 \<Rightarrow> u8 list" where
  "wr_u32 w = [ucast w, ucast (drop_bit 8 w), ucast (drop_bit 16 w), ucast (drop_bit 24 w)]"

definition wr_u64 :: "u64 \<Rightarrow> u8 list" where
  "wr_u64 w = wr_u32 (ucast w) @ wr_u32 (ucast (drop_bit 32 w))"

text \<open>\<^verbatim>\<open>memcpy\<close> out of the input blob and into the output blob. A copy that leaves the
  blob is undefined in the source; here it is an error.\<close>

definition memcpy_from :: "u8 list \<Rightarrow> nat \<Rightarrow> nat \<Rightarrow> error + u8 list" where
  "memcpy_from input off n =
     (if off + n \<le> length input then Inr (take n (drop off input)) else Inl ReadPastInput)"

definition memcpy_to :: "u8 list \<Rightarrow> nat \<Rightarrow> u8 list \<Rightarrow> error + u8 list" where
  "memcpy_to output off src =
     (if off + length src \<le> length output
      then Inr (take off output @ src @ drop (off + length src) output)
      else Inl WritePastOutput)"

definition bindE :: "error + 'a \<Rightarrow> ('a \<Rightarrow> error + 'b) \<Rightarrow> error + 'b" where
  "bindE m f = (case m of Inl e \<Rightarrow> Inl e | Inr x \<Rightarrow> f x)"

subsection \<open>The structures as byte images\<close>

definition UpdateDataHeader_of_bytes :: "u8 list \<Rightarrow> UpdateDataHeader" where
  "UpdateDataHeader_of_bytes bs =
     \<lparr>revision = rd_u32 bs 0x00, behavior_size = rd_u32 bs 0x04,
      memory_pools_size = rd_u32 bs 0x08, voices_size = rd_u32 bs 0x0c,
      voice_resource_size = rd_u32 bs 0x10, effects_size = rd_u32 bs 0x14,
      mixes_size = rd_u32 bs 0x18, sinks_size = rd_u32 bs 0x1c,
      performance_manager_size = rd_u32 bs 0x20, frame_count = rd_u32 bs 0x28,
      total_size = rd_u32 bs 0x3c\<rparr>"

text \<open>The padding words of the response header are not initialised by the constructor of
  the source; they are written as zero.\<close>

definition UpdateDataHeader_bytes :: "UpdateDataHeader \<Rightarrow> u8 list" where
  "UpdateDataHeader_bytes h =
     wr_u32 (revision h) @ wr_u32 (behavior_size h) @ wr_u32 (memory_pools_size h) @
     wr_u32 (voices_size h) @ wr_u32 (voice_resource_size h) @ wr_u32 (effects_size h) @
     wr_u32 (mixes_size h) @ wr_u32 (sinks_size h) @ wr_u32 (performance_manager_size h) @
     replicate 4 0 @ wr_u32 (frame_count h) @ replicate 16 0 @ wr_u32 (total_size h)"

definition MemoryPoolInfo_of_bytes :: "u8 list \<Rightarrow> MemoryPoolInfo" where
  "MemoryPoolInfo_of_bytes bs =
     \<lparr>pool_address = rd_u64 bs 0x00, pool_size = rd_u64 bs 0x08, pool_state = rd_u32 bs 0x10\<rparr>"

definition MemoryPoolEntry_bytes :: "MemoryPoolEntry \<Rightarrow> u8 list" where
  "MemoryPoolEntry_bytes e =
     wr_u32 (mpe_state e) @ wr_u32 (unknown_4 e) @ wr_u32 (unknown_8 e) @ wr_u32 (unknown_c e)"

definition BiquadFilter_of_bytes :: "u8 list \<Rightarrow> BiquadFilter" where
  "BiquadFilter_of_bytes bs =
     \<lparr>enable = rd_u8 bs 0,
      numerator = [rd_u16 bs 2, rd_u16 bs 4, rd_u16 bs 6],
      denominator = [rd_u16 bs 8, rd_u16 bs 10]\<rparr>"

definition WaveBuffer_of_bytes :: "u8 list \<Rightarrow> WaveBuffer" where
  "WaveBuffer_of_bytes bs =
     \<lparr>buffer_addr = rd_u64 bs 0x00, buffer_sz = rd_u64 bs 0x08,
      start_sample_offset = rd_u32 bs 0x10, end_sample_offset = rd_u32 bs 0x14,
      is_looping = rd_u8 bs 0x18, end_of_stream = rd_u8 bs 0x19, sent_to_server = rd_u8 bs 0x1a,
      context_addr = rd_u64 bs 0x20, context_sz = rd_u64 bs 0x28\<rparr>"

definition VoiceInfo_of_bytes :: "u8 list \<Rightarrow> VoiceInfo" where
  "VoiceInfo_of_bytes bs =
     \<lparr>voice_id = rd_u32 bs 0x00, node_id = rd_u32 bs 0x04,
      is_new = rd_u8 bs 0x08, info_is_in_use = rd_u8 bs 0x09,
      play_state = rd_u8 bs 0x0a, sample_format = rd_u8 bs 0x0b,
      sample_rate = rd_u32 bs 0x0c, priority = rd_u32 bs 0x10,
      sorting_order = rd_u32 bs 0x14, channel_count = rd_u32 bs 0x18,
      pitch = rd_u32 bs 0x1c, volume = rd_u32 bs 0x20,
      biquad_filter = [BiquadFilter_of_bytes (drop 0x24 bs), BiquadFilter_of_bytes (drop 0x30 bs)],
      wave_buffer_count = rd_u32 bs 0x3c, wave_buffer_head = rd_u32 bs 0x40,
      additional_params_addr = rd_u64 bs 0x48, additional_params_sz = rd_u64 bs 0x50,
      mix_id = rd_u32 bs 0x58, splitter_info_id = rd_u32 bs 0x5c,
      wave_buffer = Array4 (WaveBuffer_of_bytes (drop 0x60 bs)) (WaveBuffer_of_bytes (drop 0x98 bs))
                           (WaveBuffer_of_bytes (drop 0xd0 bs)) (WaveBuffer_of_bytes (drop 0x108 bs)),
      voice_channel_resource_ids = map (\<lambda>i. rd_u32 bs (0x140 + 4 * i)) [0..<6]\<rparr>"

definition VoiceOutStatus_bytes :: "VoiceOutStatus \<Rightarrow> u8 list" where
  "VoiceOutStatus_bytes s =
     wr_u64 (played_sample_count s) @ wr_u32 (wave_buffer_consumed s) @ wr_u32 (voice_drops_count s)"

definition ChannelInfoIn_of_bytes :: "u8 list \<Rightarrow> ChannelInfoIn" where
  "ChannelInfoIn_of_bytes bs =
     \<lparr>channel_id = rd_u32 bs 0x00,
      mix = map (\<lambda>i. rd_u32 bs (0x04 + 4 * i)) [0..<24],
      is_used = rd_u8 bs 0x64\<rparr>"

definition EffectInStatus_of_bytes :: "u8 list \<Rightarrow> EffectInStatus" where
  "EffectInStatus_of_bytes bs =
     \<lparr>effect_type = rd_u8 bs 0x00, effect_is_new = rd_u8 bs 0x01, is_enabled = rd_u8 bs 0x02,
      effect_mix_id = rd_u32 bs 0x04, buffer_base = rd_u64 bs 0x08,
      effect_buffer_sz = rd_u64 bs 0x10, effect_priority = rd_u32 bs 0x18,
      raw = take 0xa0 (drop 0x20 bs)\<rparr>"

definition send_buffer_info :: "EffectInStatus \<Rightarrow> u64" where
  "send_buffer_info e = rd_u64 (raw e) 0x40"

definition send_buffer_base :: "EffectInStatus \<Rightarrow> u64" where
  "send_buffer_base e = rd_u64 (raw e) 0x48"

definition return_buffer_info :: "EffectInStatus \<Rightarrow> u64" where
  "return_buffer_info e = rd_u64 (raw e) 0x50"

definition return_buffer_base :: "EffectInStatus \<Rightarrow> u64" where
  "return_buffer_base e = rd_u64 (raw e) 0x58"

definition EffectOutStatus_bytes :: "EffectOutStatus \<Rightarrow> u8 list" where
  "EffectOutStatus_bytes s = eos_state s # replicate 0xf 0"

text \<open>The constructor \<^verbatim>\<open>UpdateDataHeader(config)\<close>. The sum for \<open>total_size\<close> is formed in
  \<^verbatim>\<open>size_t\<close> and stored in 32 bits, which is the sum of the 32-bit words.\<close>

definition MakeMagic_REV4 :: u32 where
  "MakeMagic_REV4 = 0x52 OR push_bit 8 0x45 OR push_bit 16 0x56 OR push_bit 24 0x34"

definition UpdateDataHeader_ctor :: "AudioRendererParameter \<Rightarrow> UpdateDataHeader" where
  "UpdateDataHeader_ctor config =
     (let behavior_size' = 0xb0;
          memory_pools_size' = (effect_count config + (voice_count config * 4)) * 0x10;
          voices_size' = voice_count config * 0x10;
          effects_size' = effect_count config * 0x10;
          sinks_size' = sink_count config * 0x20;
          performance_manager_size' = 0x10
      in \<lparr>revision = MakeMagic_REV4,
          behavior_size = behavior_size',
          memory_pools_size = memory_pools_size',
          voices_size = voices_size',
          voice_resource_size = 0x0,
          effects_size = effects_size',
          mixes_size = 0x0,
          sinks_size = sinks_size',
          performance_manager_size = performance_manager_size',
          frame_count = 0,
          total_size = of_nat sizeof_UpdateDataHeader + behavior_size' + memory_pools_size' +
                       voices_size' + effects_size' + sinks_size' + performance_manager_size'\<rparr>)"

section \<open>Voices (audio_renderer.cpp)\<close>

definition STREAM_SAMPLE_RATE :: u32 where
  "STREAM_SAMPLE_RATE = 48000"

definition STREAM_NUM_CHANNELS :: u32 where
  "STREAM_NUM_CHANNELS = 2"

record InterpolationState =
  fraction :: int

text \<open>The codec (codec.h), the resampler \<^verbatim>\<open>Interpolate\<close> and guest memory are not among the
  sources; they are the parameters of the model. \<open>'ad\<close> is the type of
  \<^verbatim>\<open>Codec::ADPCMState\<close>.

  Modelled from the spec: guest memory is a byte-addressable read interface keyed by guest
  virtual address; \<^verbatim>\<open>ReadBlock\<close> reads a range of bytes and \<^verbatim>\<open>Read32\<close> a little-endian word.\<close>

datatype PcmFormat = Int16 | Adpcm | OtherFormat

record 'ad Env =
  stream_deps :: StreamDeps
  memory :: "u64 \<Rightarrow> u8"
  PcmFormat_of :: "u8 \<Rightarrow> PcmFormat"
  sizeof_ADPCM_Coeff :: nat
  DecodeADPCM :: "u8 list \<Rightarrow> u8 list \<Rightarrow> 'ad \<Rightarrow> s16 list \<times> 'ad"
  Interpolate :: "InterpolationState \<Rightarrow> s16 list \<Rightarrow> u32 \<Rightarrow> u32 \<Rightarrow> s16 list \<times> InterpolationState"

definition ReadBlock :: "(u64 \<Rightarrow> u8) \<Rightarrow> u64 \<Rightarrow> nat \<Rightarrow> u8 list" where
  "ReadBlock mem addr n = map (\<lambda>i. mem (addr + of_nat i)) [0..<n]"

definition Read32 :: "(u64 \<Rightarrow> u8) \<Rightarrow> u64 \<Rightarrow> u32" where
  "Read32 mem addr = rd_u32 (ReadBlock mem addr 4) 0"

definition samples_of_bytes :: "nat \<Rightarrow> u8 list \<Rightarrow> s16 list" where
  "samples_of_bytes n bs = map (\<lambda>i. rd_u16 bs (2 * i)) [0..<n]"

record 'ad VoiceState =
  is_in_use :: bool
  is_refresh_pending :: bool
  wave_index :: size_t
  offset :: size_t
  adpcm_state :: 'ad
  interp_state :: InterpolationState
  samples :: "s16 list"
  out_status :: VoiceOutStatus
  info :: VoiceInfo

definition VoiceState_IsPlaying :: "'ad VoiceState \<Rightarrow> bool" where
  "VoiceState_IsPlaying v = (is_in_use v \<and> play_state (info v) = PlayState_Started)"

definition GetOutStatus :: "'ad VoiceState \<Rightarrow> VoiceOutStatus" where
  "GetOutStatus v = out_status v"

definition GetInfo :: "'ad VoiceState \<Rightarrow> VoiceInfo" where
  "GetInfo v = info v"

definition SetWaveIndex :: "size_t \<Rightarrow> 'ad VoiceState \<Rightarrow> 'ad VoiceState" where
  "SetWaveIndex index v = v\<lparr>wave_index := index AND 3, is_refresh_pending := True\<rparr>"

definition VoiceOutStatus_default :: VoiceOutStatus where
  "VoiceOutStatus_default =
     \<lparr>played_sample_count = 0, wave_buffer_consumed = 0, voice_drops_count = 0\<rparr>"

definition UpdateState :: "'ad VoiceState \<Rightarrow> 'ad VoiceState" where
  "UpdateState v =
     (let v1 = (if is_in_use v \<and> \<not> (info_is_in_use (info v) \<noteq> 0)
                then v\<lparr>is_refresh_pending := True, wave_index := 0, offset := 0,
                       out_status := VoiceOutStatus_default\<rparr>
                else v)
      in v1\<lparr>is_in_use := (info_is_in_use (info v1) \<noteq> 0)\<rparr>)"

text \<open>\<^verbatim>\<open>RefreshBuffer\<close>. The vector \<open>new_samples\<close> has \<open>wave_buffer_size / 2\<close> elements and is
  filled from the block read at the wave buffer's address. \<^verbatim>\<open>UNIMPLEMENTED_MSG\<close> is fatal
  (an error branch).\<close>

definition RefreshBuffer :: "'ad Env \<Rightarrow> 'ad VoiceState \<Rightarrow> error + 'ad VoiceState" where
  "RefreshBuffer env v =
     (case array4_at (wave_buffer (info v)) (unat (wave_index v)) of
        None \<Rightarrow> Inl IndexOutOfRange
      | Some wb \<Rightarrow>
          (let wave_buffer_address = buffer_addr wb;
               wave_buffer_size = buffer_sz wb;
               block = ReadBlock (memory env) wave_buffer_address (unat wave_buffer_size);
               new_samples = samples_of_bytes (unat wave_buffer_size div 2) block
           in bindE
                (case PcmFormat_of env (sample_format (info v)) of
                   Int16 \<Rightarrow> Inr (new_samples, adpcm_state v)
                 | Adpcm \<Rightarrow>
                     (let coeffs = ReadBlock (memory env) (additional_params_addr (info v))
                                     (sizeof_ADPCM_Coeff env)
                      in Inr (DecodeADPCM env (take (length new_samples * 2) block) coeffs
                                (adpcm_state v)))
                 | OtherFormat \<Rightarrow> Inl Unimplemented)
                (\<lambda>(new_samples', adpcm_state').
                   bindE
                     (if channel_count (info v) = 1
                      then Inr (concat (map (\<lambda>x. [x, x]) new_samples'))
                      else if channel_count (info v) = 2 then Inr new_samples'
                      else Inl Unimplemented)
                     (\<lambda>samples'.
                        (let (samples'', interp_state') =
                               (if sample_rate (GetInfo v) \<noteq> STREAM_SAMPLE_RATE
                                then Interpolate env (interp_state v) samples'
                                       (sample_rate (GetInfo v)) STREAM_SAMPLE_RATE
                                else (samples', interp_state v))
                         in Inr (v\<lparr>samples := samples'', adpcm_state := adpcm_state',
                                    interp_state := interp_state',
                                    is_refresh_pending := False\<rparr>))))))"

text \<open>\<^verbatim>\<open>DequeueSamples\<close>. The arithmetic is that of \<^verbatim>\<open>size_t\<close>. The returned range of the
  cache must lie inside it; a range that does not is undefined in the source and an error
  here.\<close>

definition DequeueSamples ::
  "'ad Env \<Rightarrow> size_t \<Rightarrow> 'ad VoiceState \<Rightarrow> error + (s16 list \<times> 'ad VoiceState)" where
  "DequeueSamples env sample_count v0 =
     (if \<not> VoiceState_IsPlaying v0 then Inr ([], v0)
      else bindE (if is_refresh_pending v0 then RefreshBuffer env v0 else Inr v0)
        (\<lambda>v.
           (let max_size = of_nat (length (samples v)) - offset v;
                dequeue_offset = offset v;
                size0 = sample_count * ucast STREAM_NUM_CHANNELS;
                size = (if size0 > max_size then max_size else size0);
                v1 = v\<lparr>out_status := (out_status v)
                          \<lparr>played_sample_count :=
                             played_sample_count (out_status v) + size div ucast STREAM_NUM_CHANNELS\<rparr>,
                        offset := offset v + size\<rparr>
            in (case array4_at (wave_buffer (info v1)) (unat (wave_index v1)) of
                  None \<Rightarrow> Inl IndexOutOfRange
                | Some wave_buffer' \<Rightarrow>
                    (let v5 =
                       (if offset v1 = of_nat (length (samples v1))
                        then
                          (let v2 = v1\<lparr>offset := 0\<rparr>;
                               v3 = (if \<not> (is_looping wave_buffer' \<noteq> 0) \<and> buffer_sz wave_buffer' \<noteq> 0
                                     then SetWaveIndex (wave_index v2 + 1) v2 else v2);
                               v4 = (if buffer_sz wave_buffer' \<noteq> 0
                                     then v3\<lparr>out_status := (out_status v3)
                                            \<lparr>wave_buffer_consumed :=
                                               wave_buffer_consumed (out_status v3) + 1\<rparr>\<rparr>
                                     else v3)
                           in (if end_of_stream wave_buffer' \<noteq> 0 \<or> buffer_sz wave_buffer' = 0
                               then v4\<lparr>info := (info v4)\<lparr>play_state := PlayState_Paused\<rparr>\<rparr>
                               else v4))
                        else v1)
                     in (if unat dequeue_offset + unat size \<le> length (samples v)
                         then Inr (take (unat size) (drop (unat dequeue_offset) (samples v)), v5)
                         else Inl SliceOutOfRange))))))"

section \<open>Effects\<close>

record EffectState =
  effect_out_status :: EffectOutStatus
  effect_info :: EffectInStatus

text \<open>\<^verbatim>\<open>EffectState::UpdateState\<close>; a failing \<^verbatim>\<open>ASSERT_MSG\<close> is an error branch.\<close>

definition EffectState_UpdateState :: "'ad Env \<Rightarrow> EffectState \<Rightarrow> error + EffectState" where
  "EffectState_UpdateState env e =
     (if effect_is_new (effect_info e) \<noteq> 0
      then Inr (e\<lparr>effect_out_status := (effect_out_status e)\<lparr>eos_state := EffectStatus_New\<rparr>\<rparr>)
      else if effect_type (effect_info e) = Effect_Aux
      then (if Read32 (memory env) (return_buffer_info (effect_info e)) = 0 \<and>
               Read32 (memory env) (send_buffer_info (effect_info e)) = 0 \<and>
               Read32 (memory env) (return_buffer_base (effect_info e)) = 0 \<and>
               Read32 (memory env) (send_buffer_base (effect_info e)) = 0
            then Inr e else Inl AssertFailed)
      else Inr e)"

section \<open>The renderer\<close>

record 'ad AudioRenderer =
  worker_params :: AudioRendererParameter
  channels :: "ChannelInfoIn list"
  voices :: "'ad VoiceState list"
  effects :: "EffectState list"
  stream :: Stream

text \<open>Modelled from the spec: \<^verbatim>\<open>AudioOut\<close> (audio_out.cpp is not among the sources) hands a
  frame to the output stream as a buffer with the caller's tag, and drains the released tags
  of the stream.\<close>

definition AudioOut_QueueBuffer ::
  "StreamDeps \<Rightarrow> Stream \<Rightarrow> Tag \<Rightarrow> s16 list \<Rightarrow> bool \<times> Stream" where
  "AudioOut_QueueBuffer d s tg data =
     (case QueueBuffer d \<lparr>buffer_tag = tg, buffer_samples = data\<rparr> s of
        (ok, kept, s') \<Rightarrow> (ok, s'))"

definition AudioOut_GetTagsAndReleaseBuffers :: "Stream \<Rightarrow> nat \<Rightarrow> Tag list \<times> Stream" where
  "AudioOut_GetTagsAndReleaseBuffers s max_count = GetTagsAndReleaseBuffers max_count s"

definition AudioOut_StartStream :: "StreamDeps \<Rightarrow> Stream \<Rightarrow> Stream" where
  "AudioOut_StartStream d s = Play d s"

definition VersionFromRevision :: "u32 \<Rightarrow> u32" where
  "VersionFromRevision rv = ((drop_bit 24 rv) AND 0xff) - 0x30"

text \<open>\<^verbatim>\<open>std::clamp(value, -32768, 32767)\<close> on a signed 32-bit value, narrowed to 16 bits.\<close>

definition ClampToS16 :: "s32 \<Rightarrow> s16" where
  "ClampToS16 v =
     scast (if v <s (-32768) then (-32768) else if 32767 <s v then 32767 else v)"

subsection \<open>Single-precision arithmetic of the mixer\<close>

text \<open>A \<^verbatim>\<open>float\<close> is an IEEE 754 binary32 value: \<open>Finite s m e\<close> stands for \<open>m * 2 ^ e\<close>,
  negated when \<open>s\<close> holds, with \<open>m\<close> not negative. \<open>f32_of_bits\<close> reads a bit pattern
  (sign, 8 exponent bits, 23 fraction bits; exponent 0 is subnormal, exponent 255 is
  infinity or NaN). Every product is rounded to single precision, to the nearest value and
  to even on a tie.\<close>

datatype f32 = Finite bool int int | Infinity bool | NaN

definition f32_of_bits :: "float_le \<Rightarrow> f32" where
  "f32_of_bits w =
     (let sign = bit w 31;
          e = uint (drop_bit 23 w AND 0xff);
          m = uint (w AND 0x7fffff)
      in if e = 255 then (if m = 0 then Infinity sign else NaN)
         else if e = 0 then Finite sign m (- 149)
         else Finite sign (2 ^ 23 + m) (e - 150))"

text \<open>The number of binary digits of a positive integer.\<close>

function bitlen :: "int \<Rightarrow> int" where
  "bitlen n = (if n \<le> 0 then 0 else 1 + bitlen (n div 2))"
  by pat_completeness auto
termination
  by (relation "measure nat") auto

declare bitlen.simps [simp del]

text \<open>Rounding of \<open>m * 2 ^ e\<close> to the nearest binary32 value, ties to even: the result has
  at most 24 significant bits and a unit in the last place of at least \<open>2 ^ - 149\<close>; from
  \<open>2 ^ 128\<close> on it is infinite.\<close>

definition f32_round :: "bool \<Rightarrow> int \<Rightarrow> int \<Rightarrow> f32" where
  "f32_round sign m e =
     (if m = 0 then Finite sign 0 (- 149)
      else (let p = bitlen m - 1 + e;
                q = max (p - 23) (- 149);
                m' = (if q \<le> e then m * 2 ^ nat (e - q)
                      else (let s = nat (q - e);
                                quo = m div 2 ^ s;
                                r = m mod 2 ^ s;
                                half = 2 ^ (s - 1)
                            in if r > half \<or> (r = half \<and> odd quo) then quo + 1 else quo))
            in if q > 104 \<or> (q = 104 \<and> m' \<ge> 2 ^ 24) then Infinity sign
               else Finite sign m' q))"

fun f32_mul :: "f32 \<Rightarrow> f32 \<Rightarrow> f32" where
  "f32_mul (Finite s1 m1 e1) (Finite s2 m2 e2) = f32_round (s1 \<noteq> s2) (m1 * m2) (e1 + e2)"
| "f32_mul (Finite s1 m1 e1) (Infinity s2) = (if m1 = 0 then NaN else Infinity (s1 \<noteq> s2))"
| "f32_mul (Infinity s1) (Finite s2 m2 e2) = (if m2 = 0 then NaN else Infinity (s1 \<noteq> s2))"
| "f32_mul (Infinity s1) (Infinity s2) = Infinity (s1 \<noteq> s2)"
| "f32_mul NaN y = NaN"
| "f32_mul x NaN = NaN"

text \<open>The conversion of a 16-bit sample to \<^verbatim>\<open>float\<close> is exact.\<close>

definition f32_of_s16 :: "s16 \<Rightarrow> f32" where
  "f32_of_s16 x = Finite (sint x < 0) \<bar>sint x\<bar> 0"

text \<open>\<^verbatim>\<open>static_cast<s32>\<close> of a \<^verbatim>\<open>float\<close> truncates towards zero. For a value outside the
  range of \<^verbatim>\<open>s32\<close>, an infinity or a NaN the conversion is undefined in the source; it is an
  error here.\<close>

definition f32_to_s32 :: "f32 \<Rightarrow> error + s32" where
  "f32_to_s32 x =
     (case x of
        Finite s m e \<Rightarrow>
          (let t = (if e \<ge> 0 then m * 2 ^ nat e else m div 2 ^ nat (- e));
               v = (if s then - t else t)
           in if - (2 ^ 31) \<le> v \<and> v < 2 ^ 31 then Inr (word_of_int v) else Inl CastOutOfRange)
      | Infinity s \<Rightarrow> Inl CastOutOfRange
      | NaN \<Rightarrow> Inl CastOutOfRange)"

text \<open>\<^verbatim>\<open>static_cast<s32>(sample * voice.GetInfo().volume * submix)\<close>: the sample times the
  volume, rounded, times the channel gain, rounded, truncated.\<close>

definition MixSample :: "s16 \<Rightarrow> float_le \<Rightarrow> float_le \<Rightarrow> error + s32" where
  "MixSample sample vol submix =
     f32_to_s32 (f32_mul (f32_mul (f32_of_s16 sample) (f32_of_bits vol)) (f32_of_bits submix))"

text \<open>The inner loop of \<^verbatim>\<open>QueueMixedBuffer\<close>, over the samples of one dequeue. The sum is an
  addition of two \<^verbatim>\<open>s32\<close> values; where it overflows, which C++ leaves undefined, it wraps
  here modulo \<open>2 ^ 32\<close>, as the compiled program does. A write past the frame is undefined
  in the source and an error here.\<close>

fun mix_samples ::
  "float_le \<Rightarrow> float_le list \<Rightarrow> s16 list \<Rightarrow> s16 list \<Rightarrow> nat \<Rightarrow> error + (s16 list \<times> nat)" where
  "mix_samples vol mx [] buffer offs = Inr (buffer, offs)"
| "mix_samples vol mx (sample # rest) buffer offs =
     (if offs < length buffer
      then (let buffer_sample = (scast (buffer ! offs) :: s32);
                submix = mx ! (offs mod 2)
            in (case MixSample sample vol submix of
                  Inl e \<Rightarrow> Inl e
                | Inr scaled \<Rightarrow>
                    mix_samples vol mx rest
                      (buffer[offs := ClampToS16 (buffer_sample + scaled)]) (offs + 1)))
      else Inl WritePastOutput)"

lemma mix_samples_Inr:
  "mix_samples vol mx smp buffer offs = Inr (buffer', offs') \<Longrightarrow>
     offs' = offs + length smp \<and> length buffer' = length buffer \<and>
     (smp \<noteq> [] \<longrightarrow> offs' \<le> length buffer)"
proof (induction smp arbitrary: buffer offs)
  case Nil
  then show ?case by simp
next
  case (Cons a smp)
  from Cons.prems have lt: "offs < length buffer"
    by (simp split: if_splits)
  from Cons.prems lt obtain b2 where
    rec: "mix_samples vol mx smp b2 (offs + 1) = Inr (buffer', offs')"
    and len: "length b2 = length buffer"
    by (auto simp: Let_def split: sum.splits)
  from Cons.IH [OF rec] len lt show ?case
    by (cases smp) auto
qed

text \<open>The \<^verbatim>\<open>while (samples_remaining > 0)\<close> loop of \<^verbatim>\<open>QueueMixedBuffer\<close> for one voice.\<close>

function mix_voice ::
  "'ad Env \<Rightarrow> u32 \<Rightarrow> ChannelInfoIn list \<Rightarrow> 'ad VoiceState \<Rightarrow> s16 list \<Rightarrow> nat \<Rightarrow> int \<Rightarrow>
     error + ('ad VoiceState \<times> s16 list)" where
  "mix_voice env nch chans voice buffer offs samples_remaining =
     (if samples_remaining > 0
      then (case DequeueSamples env (word_of_int samples_remaining) voice of
              Inl e \<Rightarrow> Inl e
            | Inr (smp, voice') \<Rightarrow>
                (if smp = [] then Inr (voice', buffer)
                 else (let samples_remaining' = samples_remaining - int (length smp div unat nch)
                       in (if unat (voice_id (GetInfo voice')) < length chans
                           then (let mx = mix (chans ! unat (voice_id (GetInfo voice')))
                                 in (case mix_samples (volume (GetInfo voice')) mx smp buffer offs of
                                       Inl e \<Rightarrow> Inl e
                                     | Inr (buffer', offs') \<Rightarrow>
                                         mix_voice env nch chans voice' buffer' offs' samples_remaining'))
                           else Inl IndexOutOfRange))))
      else Inr (voice, buffer))"
  by pat_completeness auto
termination
proof (relation "measure (\<lambda>(env, nch, chans, voice, buffer, offs, rem). length buffer - offs)")
  show "wf (measure (\<lambda>(env, nch, chans, voice, buffer, offs, rem). length buffer - offs))"
    by simp
next
  fix env :: "'ad Env" and nch :: u32 and chans :: "ChannelInfoIn list"
    and voice voice' :: "'ad VoiceState" and buffer offs and samples_remaining rem' :: int
    and smp mx x2a buffer' offs'
  assume "smp \<noteq> []"
    and "mix_samples (volume (GetInfo voice')) mx smp buffer offs = Inr x2a"
    and "(buffer', offs') = x2a"
  then have "mix_samples (volume (GetInfo voice')) mx smp buffer offs = Inr (buffer', offs')"
    and "smp \<noteq> []"
    by simp_all
  then have "length buffer' - offs' < length buffer - offs"
    using mix_samples_Inr [of "volume (GetInfo voice')" mx smp buffer offs buffer' offs']
    by (cases smp) auto
  then show "((env, nch, chans, voice', buffer', offs', rem'), env, nch, chans, voice, buffer, offs,
               samples_remaining)
             \<in> measure (\<lambda>(env, nch, chans, voice, buffer, offs, rem). length buffer - offs)"
    by simp
qed

declare mix_voice.simps [simp del]

text \<open>The samples that the first \<open>n\<close> rounds of that loop dequeue from a voice, in order.\<close>

fun dequeued :: "'ad Env \<Rightarrow> u32 \<Rightarrow> nat \<Rightarrow> 'ad VoiceState \<Rightarrow> int \<Rightarrow> s16 list" where
  "dequeued env nch 0 voice samples_remaining = []"
| "dequeued env nch (Suc n) voice samples_remaining =
     (if samples_remaining > 0
      then (case DequeueSamples env (word_of_int samples_remaining) voice of
              Inl e \<Rightarrow> []
            | Inr (smp, voice') \<Rightarrow>
                (if smp = [] then []
                 else smp @ dequeued env nch n voice'
                              (samples_remaining - int (length smp div unat nch))))
      else [])"

text \<open>The loop of \<^verbatim>\<open>QueueMixedBuffer\<close> over the voices; each voice is advanced in place.\<close>

fun mix_voices ::
  "'ad Env \<Rightarrow> u32 \<Rightarrow> ChannelInfoIn list \<Rightarrow> 'ad VoiceState list \<Rightarrow> s16 list \<Rightarrow>
     error + ('ad VoiceState list \<times> s16 list)" where
  "mix_voices env nch chans [] buffer = Inr ([], buffer)"
| "mix_voices env nch chans (voice # rest) buffer =
     (if \<not> VoiceState_IsPlaying voice
      then (case mix_voices env nch chans rest buffer of
              Inl e \<Rightarrow> Inl e
            | Inr (rest', buffer') \<Rightarrow> Inr (voice # rest', buffer'))
      else (case mix_voice env nch chans voice buffer 0 512 of
              Inl e \<Rightarrow> Inl e
            | Inr (voice', buffer') \<Rightarrow>
                (case mix_voices env nch chans rest buffer' of
                   Inl e \<Rightarrow> Inl e
                 | Inr (rest', buffer'') \<Rightarrow> Inr (voice' # rest', buffer''))))"

definition QueueMixedBuffer :: "'ad Env \<Rightarrow> Tag \<Rightarrow> 'ad AudioRenderer \<Rightarrow> error + 'ad AudioRenderer" where
  "QueueMixedBuffer env tg r =
     (let BUFFER_SIZE = 512;
          buffer = replicate (BUFFER_SIZE * unat (GetNumChannels (stream r))) 0
      in (case mix_voices env (GetNumChannels (stream r)) (channels r) (voices r) buffer of
            Inl e \<Rightarrow> Inl e
          | Inr (voices', buffer') \<Rightarrow>
              Inr (r\<lparr>voices := voices',
                     stream := snd (AudioOut_QueueBuffer (stream_deps env) (stream r) tg buffer')\<rparr>)))"

fun QueueMixedBuffers :: "'ad Env \<Rightarrow> Tag list \<Rightarrow> 'ad AudioRenderer \<Rightarrow> error + 'ad AudioRenderer" where
  "QueueMixedBuffers env [] r = Inr r"
| "QueueMixedBuffers env (tg # tags) r =
     (case QueueMixedBuffer env tg r of
        Inl e \<Rightarrow> Inl e
      | Inr r' \<Rightarrow> QueueMixedBuffers env tags r')"

definition ReleaseAndQueueBuffers :: "'ad Env \<Rightarrow> 'ad AudioRenderer \<Rightarrow> error + 'ad AudioRenderer" where
  "ReleaseAndQueueBuffers env r =
     (case AudioOut_GetTagsAndReleaseBuffers (stream r) 2 of
        (released, stream') \<Rightarrow> QueueMixedBuffers env released (r\<lparr>stream := stream'\<rparr>))"

subsection \<open>Construction\<close>

definition WaveBuffer_default :: WaveBuffer where
  "WaveBuffer_default =
     \<lparr>buffer_addr = 0, buffer_sz = 0, start_sample_offset = 0, end_sample_offset = 0,
      is_looping = 0, end_of_stream = 0, sent_to_server = 0, context_addr = 0, context_sz = 0\<rparr>"

definition BiquadFilter_default :: BiquadFilter where
  "BiquadFilter_default = \<lparr>enable = 0, numerator = [0, 0, 0], denominator = [0, 0]\<rparr>"

definition VoiceInfo_default :: VoiceInfo where
  "VoiceInfo_default =
     \<lparr>voice_id = 0, node_id = 0, is_new = 0, info_is_in_use = 0, play_state = 0,
      sample_format = 0, sample_rate = 0, priority = 0, sorting_order = 0, channel_count = 0,
      pitch = 0, volume = 0, biquad_filter = [BiquadFilter_default, BiquadFilter_default],
      wave_buffer_count = 0, wave_buffer_head = 0, additional_params_addr = 0,
      additional_params_sz = 0, mix_id = 0, splitter_info_id = 0,
      wave_buffer = Array4 WaveBuffer_default WaveBuffer_default WaveBuffer_default
                      WaveBuffer_default,
      voice_channel_resource_ids = replicate 6 0\<rparr>"

text \<open>A value-initialised \<^verbatim>\<open>VoiceState\<close>; \<open>ad0\<close> is the value-initialised codec state.\<close>

definition VoiceState_default :: "'ad \<Rightarrow> 'ad VoiceState" where
  "VoiceState_default ad0 =
     \<lparr>is_in_use = False, is_refresh_pending = False, wave_index = 0, offset = 0,
      adpcm_state = ad0, interp_state = \<lparr>fraction = 0\<rparr>, samples = [],
      out_status = VoiceOutStatus_default, info = VoiceInfo_default\<rparr>"

definition EffectState_default :: EffectState where
  "EffectState_default =
     \<lparr>effect_out_status = \<lparr>eos_state = 0\<rparr>,
      effect_info = \<lparr>effect_type = 0, effect_is_new = 0, is_enabled = 0, effect_mix_id = 0,
                     buffer_base = 0, effect_buffer_sz = 0, effect_priority = 0,
                     raw = replicate 0xa0 0\<rparr>\<rparr>"

definition MemoryPoolEntry_default :: MemoryPoolEntry where
  "MemoryPoolEntry_default = \<lparr>mpe_state = 0, unknown_4 = 0, unknown_8 = 0, unknown_c = 0\<rparr>"

text \<open>The constructor. \<open>opened\<close> is the stream that \<^verbatim>\<open>AudioOut::OpenStream\<close> returns.\<close>

definition AudioRenderer_ctor ::
  "'ad Env \<Rightarrow> 'ad \<Rightarrow> AudioRendererParameter \<Rightarrow> Stream \<Rightarrow> error + 'ad AudioRenderer" where
  "AudioRenderer_ctor env ad0 params opened =
     QueueMixedBuffers env [0, 1, 2]
       \<lparr>worker_params = params,
        channels = [],
        voices = replicate (unat (voice_count params)) (VoiceState_default ad0),
        effects = replicate (unat (effect_count params)) EffectState_default,
        stream = AudioOut_StartStream (stream_deps env) opened\<rparr>"

subsection \<open>The update\<close>

text \<open>The loops of \<^verbatim>\<open>UpdateAudioRenderer\<close> that copy the input sections into the voices,
  channels and effects.\<close>

fun copy_voice_infos ::
  "u8 list \<Rightarrow> nat \<Rightarrow> 'ad VoiceState list \<Rightarrow> error + ('ad VoiceState list \<times> nat)" where
  "copy_voice_infos input_params voice_offset [] = Inr ([], voice_offset)"
| "copy_voice_infos input_params voice_offset (voice # rest) =
     (case memcpy_from input_params voice_offset sizeof_VoiceInfo of
        Inl e \<Rightarrow> Inl e
      | Inr bs \<Rightarrow>
          (case copy_voice_infos input_params (voice_offset + sizeof_VoiceInfo) rest of
             Inl e \<Rightarrow> Inl e
           | Inr (rest', voice_offset') \<Rightarrow>
               Inr (voice\<lparr>info := VoiceInfo_of_bytes bs\<rparr> # rest', voice_offset')))"

fun copy_channel_infos :: "u8 list \<Rightarrow> nat \<Rightarrow> nat \<Rightarrow> error + ChannelInfoIn list" where
  "copy_channel_infos input_params channel_offset 0 = Inr []"
| "copy_channel_infos input_params channel_offset (Suc n) =
     (case memcpy_from input_params channel_offset sizeof_ChannelInfoIn of
        Inl e \<Rightarrow> Inl e
      | Inr bs \<Rightarrow>
          (case copy_channel_infos input_params (channel_offset + sizeof_ChannelInfoIn) n of
             Inl e \<Rightarrow> Inl e
           | Inr rest' \<Rightarrow> Inr (ChannelInfoIn_of_bytes bs # rest')))"

fun copy_effect_infos :: "u8 list \<Rightarrow> nat \<Rightarrow> EffectState list \<Rightarrow> error + EffectState list" where
  "copy_effect_infos input_params effect_offset [] = Inr []"
| "copy_effect_infos input_params effect_offset (effect # rest) =
     (case memcpy_from input_params effect_offset sizeof_EffectInStatus of
        Inl e \<Rightarrow> Inl e
      | Inr bs \<Rightarrow>
          (case copy_effect_infos input_params (effect_offset + sizeof_EffectInStatus) rest of
             Inl e \<Rightarrow> Inl e
           | Inr rest' \<Rightarrow> Inr (effect\<lparr>effect_info := EffectInStatus_of_bytes bs\<rparr> # rest')))"

text \<open>``Update memory pool state'': the entries start value-initialised in every update.\<close>

definition UpdateMemoryPoolState :: "MemoryPoolInfo list \<Rightarrow> MemoryPoolEntry list \<Rightarrow> MemoryPoolEntry list" where
  "UpdateMemoryPoolState mem_pool_info memory_pool =
     map (\<lambda>index.
            if pool_state (mem_pool_info ! index) = RequestAttach
            then (memory_pool ! index)\<lparr>mpe_state := Attached\<rparr>
            else if pool_state (mem_pool_info ! index) = RequestDetach
            then (memory_pool ! index)\<lparr>mpe_state := Detached\<rparr>
            else memory_pool ! index)
         [0..<length memory_pool]"

text \<open>``Update voices'': the body of the loop, for one voice.\<close>

definition UpdateVoice :: "'ad VoiceState \<Rightarrow> 'ad VoiceState" where
  "UpdateVoice voice0 =
     (let voice = UpdateState voice0
      in if \<not> (info_is_in_use (GetInfo voice) \<noteq> 0) then voice
         else if is_new (GetInfo voice) \<noteq> 0
         then SetWaveIndex (ucast (wave_buffer_head (GetInfo voice))) voice
         else voice)"

fun UpdateEffects :: "'ad Env \<Rightarrow> EffectState list \<Rightarrow> error + EffectState list" where
  "UpdateEffects env [] = Inr []"
| "UpdateEffects env (effect # rest) =
     (case EffectState_UpdateState env effect of
        Inl e \<Rightarrow> Inl e
      | Inr effect' \<Rightarrow>
          (case UpdateEffects env rest of
             Inl e \<Rightarrow> Inl e
           | Inr rest' \<Rightarrow> Inr (effect' # rest')))"

text \<open>The loops that copy the status of the voices and of the effects into the output.\<close>

fun copy_voice_out_status :: "u8 list \<Rightarrow> nat \<Rightarrow> 'ad VoiceState list \<Rightarrow> error + u8 list" where
  "copy_voice_out_status output_params voice_out_status_offset [] = Inr output_params"
| "copy_voice_out_status output_params voice_out_status_offset (voice # rest) =
     (case memcpy_to output_params voice_out_status_offset
             (VoiceOutStatus_bytes (GetOutStatus voice)) of
        Inl e \<Rightarrow> Inl e
      | Inr output_params' \<Rightarrow>
          copy_voice_out_status output_params'
            (voice_out_status_offset + sizeof_VoiceOutStatus) rest)"

fun copy_effect_out_status :: "u8 list \<Rightarrow> nat \<Rightarrow> EffectState list \<Rightarrow> error + u8 list" where
  "copy_effect_out_status output_params effect_out_status_offset [] = Inr output_params"
| "copy_effect_out_status output_params effect_out_status_offset (effect # rest) =
     (case memcpy_to output_params effect_out_status_offset
             (EffectOutStatus_bytes (effect_out_status effect)) of
        Inl e \<Rightarrow> Inl e
      | Inr output_params' \<Rightarrow>
          copy_effect_out_status output_params'
            (effect_out_status_offset + sizeof_EffectOutStatus) rest)"

text \<open>The input half of \<^verbatim>\<open>UpdateAudioRenderer\<close>: parse, update the memory pools, the voices
  and the effects, release and queue. It yields the parsed header, the memory pool entries
  and the renderer.\<close>

definition UpdateAudioRenderer_input ::
  "'ad Env \<Rightarrow> u8 list \<Rightarrow> 'ad AudioRenderer \<Rightarrow>
     error + (UpdateDataHeader \<times> MemoryPoolEntry list \<times> 'ad AudioRenderer)" where
  "UpdateAudioRenderer_input env input_params r =
     bindE (memcpy_from input_params 0 sizeof_UpdateDataHeader) (\<lambda>config_bytes.
       (let config = UpdateDataHeader_of_bytes config_bytes;
            memory_pool_count =
              effect_count (worker_params r) + (voice_count (worker_params r) * 4)
        in bindE (memcpy_from input_params
                    (sizeof_UpdateDataHeader + unat (behavior_size config))
                    (unat memory_pool_count * sizeof_MemoryPoolInfo)) (\<lambda>pool_bytes.
           (let mem_pool_info =
                  map (\<lambda>i. MemoryPoolInfo_of_bytes (drop (i * sizeof_MemoryPoolInfo) pool_bytes))
                    [0..<unat memory_pool_count];
                voice_offset0 = sizeof_UpdateDataHeader + unat (behavior_size config) +
                                unat (memory_pools_size config) + unat (voice_resource_size config)
            in bindE (copy_voice_infos input_params voice_offset0 (voices r)) (\<lambda>(voices1, voice_offset).
               (let channel_offset = sizeof_UpdateDataHeader + unat (behavior_size config) +
                                     unat (memory_pools_size config)
                in bindE (copy_channel_infos input_params channel_offset
                            ((voice_offset - channel_offset) div sizeof_ChannelInfoIn)) (\<lambda>channels1.
                   (let effect_offset = sizeof_UpdateDataHeader + unat (behavior_size config) +
                                        unat (memory_pools_size config) +
                                        unat (voice_resource_size config) + unat (voices_size config)
                    in bindE (copy_effect_infos input_params effect_offset (effects r)) (\<lambda>effects1.
                       (let memory_pool =
                              UpdateMemoryPoolState mem_pool_info
                                (replicate (unat memory_pool_count) MemoryPoolEntry_default);
                            voices2 = map UpdateVoice voices1
                        in bindE (UpdateEffects env effects1) (\<lambda>effects2.
                           bindE (ReleaseAndQueueBuffers env
                                    (r\<lparr>channels := channels1, voices := voices2,
                                       effects := effects2\<rparr>)) (\<lambda>r'.
                             Inr (config, memory_pool, r')))))))))))))"

text \<open>The output half: the response header, the output vector and the copies into it.\<close>

definition UpdateAudioRenderer_output ::
  "UpdateDataHeader \<Rightarrow> MemoryPoolEntry list \<Rightarrow> 'ad AudioRenderer \<Rightarrow> error + u8 list" where
  "UpdateAudioRenderer_output config memory_pool r =
     (let response_data0 = UpdateDataHeader_ctor (worker_params r);
          output_params = replicate (unat (total_size response_data0)) (0 :: u8);
          audren_revision = VersionFromRevision (revision config);
          response_data =
            (if audren_revision \<ge> 5
             then response_data0\<lparr>frame_count := 0x10, total_size := total_size response_data0 + 0x10\<rparr>
             else response_data0)
      in bindE (memcpy_to output_params 0 (UpdateDataHeader_bytes response_data)) (\<lambda>output1.
         bindE (memcpy_to output1 sizeof_UpdateDataHeader
                  (take (unat (memory_pools_size response_data))
                     (concat (map MemoryPoolEntry_bytes memory_pool)))) (\<lambda>output2.
         bindE (copy_voice_out_status output2
                  (sizeof_UpdateDataHeader + unat (memory_pools_size response_data))
                  (voices r)) (\<lambda>output3.
         copy_effect_out_status output3
           (sizeof_UpdateDataHeader + unat (memory_pools_size response_data) +
            unat (voices_size response_data) + unat (voice_resource_size response_data))
           (effects r)))))"

definition UpdateAudioRenderer ::
  "'ad Env \<Rightarrow> u8 list \<Rightarrow> 'ad AudioRenderer \<Rightarrow> error + (u8 list \<times> 'ad AudioRenderer)" where
  "UpdateAudioRenderer env input_params r =
     bindE (UpdateAudioRenderer_input env input_params r) (\<lambda>(config, memory_pool, r').
       bindE (UpdateAudioRenderer_output config memory_pool r') (\<lambda>output_params.
         Inr (output_params, r')))"

section \<open>Scenarios\<close>

text \<open>Successive calls of \<^verbatim>\<open>QueueBuffer\<close>, one per buffer of a list, with the flags they
  return; and \<open>k\<close> successive calls of \<^verbatim>\<open>GetTagsAndReleaseBuffers\<close> with the same bound.\<close>

fun QueueBuffers :: "StreamDeps \<Rightarrow> Buffer list \<Rightarrow> Stream \<Rightarrow> bool list \<times> Stream" where
  "QueueBuffers d [] s = ([], s)"
| "QueueBuffers d (b # bs) s =
     (case QueueBuffer d b s of
        (ok, kept, s') \<Rightarrow> (case QueueBuffers d bs s' of (oks, s'') \<Rightarrow> (ok # oks, s'')))"

fun drain :: "nat \<Rightarrow> nat \<Rightarrow> Stream \<Rightarrow> Tag list list \<times> Stream" where
  "drain 0 n s = ([], s)"
| "drain (Suc k) n s =
     (case GetTagsAndReleaseBuffers n s of
        (tags, s') \<Rightarrow> (case drain k n s' of (rest, s'') \<Rightarrow> (tags # rest, s'')))"

text \<open>Concrete values for the examples: parameters that leave the samples as they are, a
  buffer, and an empty stereo stream in a given state.\<close>

definition example_deps :: StreamDeps where
  "example_deps = \<lparr>VolumeAdjustSamples = (\<lambda>smp v. smp), GetBufferReleaseCycles = (\<lambda>s b. 0)\<rparr>"

definition example_buffer :: "Tag \<Rightarrow> Buffer" where
  "example_buffer tg = \<lparr>buffer_tag = tg, buffer_samples = []\<rparr>"

definition example_stream :: "State \<Rightarrow> Stream" where
  "example_stream st =
     \<lparr>stream_sample_rate = 48000, format = Stereo16, state = st, game_volume = 0x3f800000,
      active_buffer = None, queued_buffers = [], released_buffers = [], calls = []\<rparr>"

text \<open>The operations on a voice, as the update and the mixer apply them: the copy of a parsed
  \<^verbatim>\<open>VoiceInfo\<close> into the voice, \<^verbatim>\<open>UpdateState\<close>, \<^verbatim>\<open>SetWaveIndex\<close>, \<^verbatim>\<open>RefreshBuffer\<close> and
  \<^verbatim>\<open>DequeueSamples\<close>. A run applies a list of them, each in the environment of its moment,
  and stops at the first error.\<close>

datatype voice_op =
    OpSetInfo VoiceInfo
  | OpUpdateState
  | OpSetWaveIndex size_t
  | OpRefreshBuffer
  | OpDequeueSamples size_t

fun voice_step :: "'ad Env \<Rightarrow> voice_op \<Rightarrow> 'ad VoiceState \<Rightarrow> error + 'ad VoiceState" where
  "voice_step env (OpSetInfo i) v = Inr (v\<lparr>info := i\<rparr>)"
| "voice_step env OpUpdateState v = Inr (UpdateState v)"
| "voice_step env (OpSetWaveIndex index) v = Inr (SetWaveIndex index v)"
| "voice_step env OpRefreshBuffer v = RefreshBuffer env v"
| "voice_step env (OpDequeueSamples n) v =
     (case DequeueSamples env n v of Inl e \<Rightarrow> Inl e | Inr (smp, v') \<Rightarrow> Inr v')"

fun voice_run :: "('ad Env \<times> voice_op) list \<Rightarrow> 'ad VoiceState \<Rightarrow> error + 'ad VoiceState" where
  "voice_run [] v = Inr v"
| "voice_run ((env, op) # ops) v =
     (case voice_step env op v of Inl e \<Rightarrow> Inl e | Inr v' \<Rightarrow> voice_run ops v')"

text \<open>A concrete environment for the examples: every 16-bit sample in guest memory is 20000
  (bytes 0x20, 0x4e), sample format 2 is PCM16 and 6 is ADPCM; the resampler and the ADPCM
  decoder, which the examples never reach, return their input and nothing. \<open>float_one\<close> is
  the bit pattern of \<open>1.0\<close>.\<close>

definition float_one :: float_le where
  "float_one = 0x3f800000"

definition example_env :: "unit Env" where
  "example_env =
     \<lparr>stream_deps = example_deps,
      memory = (\<lambda>a. if even (unat a) then 0x20 else 0x4e),
      PcmFormat_of = (\<lambda>f. if f = 2 then Int16 else if f = 6 then Adpcm else OtherFormat),
      sizeof_ADPCM_Coeff = 32,
      DecodeADPCM = (\<lambda>data coeffs st. ([], st)),
      Interpolate = (\<lambda>st smp input_rate output_rate. (smp, st))\<rparr>"

text \<open>A stereo PCM16 voice at 48000 Hz, in use, new and started, with unit volume. Its four
  wave buffers hold two stereo frames (8 bytes) each; none loops, the third is marked
  end-of-stream. The declared head index is 6.\<close>

definition example_wave_buffer :: "u8 \<Rightarrow> WaveBuffer" where
  "example_wave_buffer eos = WaveBuffer_default\<lparr>buffer_sz := 8, end_of_stream := eos\<rparr>"

definition example_voice_info :: VoiceInfo where
  "example_voice_info =
     VoiceInfo_default
       \<lparr>is_new := 1, info_is_in_use := 1, play_state := PlayState_Started, sample_format := 2,
        sample_rate := 48000, channel_count := 2, volume := float_one, wave_buffer_head := 6,
        wave_buffer := Array4 (example_wave_buffer 0) (example_wave_buffer 0)
                         (example_wave_buffer 1) (example_wave_buffer 0)\<rparr>"

text \<open>The example voice after \<^verbatim>\<open>SetWaveIndex(6)\<close>, and what it is after a dequeue of two
  frames (the whole third wave buffer) and after a dequeue of one frame.\<close>

definition example_voice :: "unit VoiceState" where
  "example_voice =
     SetWaveIndex 6 ((VoiceState_default ())\<lparr>is_in_use := True, info := example_voice_info\<rparr>)"



text \<open>The number of frames a stream holds for playback: the queued buffers and the active
  one.\<close>

definition buffers_held :: "Stream \<Rightarrow> nat" where
  "buffers_held s = length (queued_buffers s) + (case active_buffer s of None \<Rightarrow> 0 | Some b \<Rightarrow> 1)"

text \<open>Example renderers: a playing stereo stream that has released three buffers and a
  single channel with unit gains, with no voice, and with two copies of the example voice.\<close>

definition example_params :: "u32 \<Rightarrow> AudioRendererParameter" where
  "example_params n =
     \<lparr>param_sample_rate = 48000, param_sample_count = 240, mix_buffer_count = 2,
      submix_count = 0, voice_count = n, sink_count = 1, effect_count = 0,
      performance_frame_count = 0, is_voice_drop_enabled = 0, unknown_21 = 0, unknown_22 = 0,
      execution_mode = 0, splitter_count = 0, num_splitter_send_channels = 0, unknown_30 = 0,
      param_revision = 0\<rparr>"

definition example_channel :: ChannelInfoIn where
  "example_channel = \<lparr>channel_id = 0, mix = replicate 24 float_one, is_used = 1\<rparr>"

definition example_renderer :: "unit VoiceState list \<Rightarrow> unit AudioRenderer" where
  "example_renderer vs =
     \<lparr>worker_params = example_params (of_nat (length vs)),
      channels = [example_channel],
      voices = vs,
      effects = [],
      stream = (example_stream Playing)
        \<lparr>released_buffers := [example_buffer 10, example_buffer 11, example_buffer 12]\<rparr>\<rparr>"

text \<open>An update for a renderer with no voice and one effect, hence one memory pool: a header
  with the given revision that declares a memory pool section of 0x20 bytes and nothing
  else, one \<^verbatim>\<open>MemoryPoolInfo\<close> with the given state, and one \<^verbatim>\<open>EffectInStatus\<close> of zeros.
  The renderer is the one the constructor builds on a fresh stereo stream.\<close>

definition example_update_input :: "u32 \<Rightarrow> u32 \<Rightarrow> u8 list" where
  "example_update_input rv st =
     (wr_u32 rv @ wr_u32 0 @ wr_u32 0x20 @ replicate 0x34 0) @
     (replicate 0x10 0 @ wr_u32 st @ replicate 0xc 0) @
     replicate 0xc0 0"

definition REV5 :: u32 where
  "REV5 = 0x35564552"

definition example_update_params :: AudioRendererParameter where
  "example_update_params = (example_params 0)\<lparr>effect_count := 1\<rparr>"

definition example_update_renderer :: "unit AudioRenderer" where
  "example_update_renderer =
     projr (AudioRenderer_ctor example_env () example_update_params (example_stream Stopped))"


text \<open>The example voice with the volume 107374.0 (bit pattern \<open>0x47D1B700\<close>).\<close>

definition example_voice_loud :: "unit VoiceState" where
  "example_voice_loud = example_voice\<lparr>info := (info example_voice)\<lparr>volume := 0x47D1B700\<rparr>\<rparr>"

section \<open>Properties of the output stream\<close>

lemma GetTags_loop_eq:
  "GetTags_loop count max_count tags released =
     (tags @ map GetTag (take (max_count - count) released), drop (max_count - count) released)"
proof (induction count max_count tags released rule: GetTags_loop.induct)
  case (1 count max_count tags released)
  show ?case
  proof (cases "count < max_count \<and> released \<noteq> []")
    case True
    then obtain b rest where rel: "released = b # rest"
      by (cases released) auto
    from True have step: "max_count - count = Suc (max_count - (count + 1))"
      by arith
    have "GetTags_loop count max_count tags released =
            GetTags_loop (count + 1) max_count (tags @ [GetTag (hd released)]) (tl released)"
      using True by (subst GetTags_loop.simps) simp
    also have "\<dots> = ((tags @ [GetTag (hd released)]) @
                       map GetTag (take (max_count - (count + 1)) (tl released)),
                     drop (max_count - (count + 1)) (tl released))"
      using "1.IH" True by simp
    also have "\<dots> = (tags @ map GetTag (take (max_count - count) released),
                     drop (max_count - count) released)"
      unfolding step rel by simp
    finally show ?thesis .
  next
    case False
    then have "GetTags_loop count max_count tags released = (tags, released)"
      by (subst GetTags_loop.simps) (simp only: if_False)
    moreover from False
    have "take (max_count - count) released = [] \<and> drop (max_count - count) released = released"
      by auto
    ultimately show ?thesis by simp
  qed
qed

lemma GetTagsAndReleaseBuffers_eq:
  "GetTagsAndReleaseBuffers n s =
     (map GetTag (take n (released_buffers s)),
      s\<lparr>released_buffers := drop n (released_buffers s)\<rparr>)"
  by (simp add: GetTagsAndReleaseBuffers_def GetTags_loop_eq)

lemma drain_eq:
  "snd (drain k n s) = s\<lparr>released_buffers := drop (k * n) (released_buffers s)\<rparr> \<and>
   concat (fst (drain k n s)) = map GetTag (take (k * n) (released_buffers s))"
proof (induction k arbitrary: s)
  case 0
  show ?case by simp
next
  case (Suc k)
  define s' where "s' = s\<lparr>released_buffers := drop n (released_buffers s)\<rparr>"
  have rel: "released_buffers s' = drop n (released_buffers s)"
    by (simp add: s'_def)
  have a: "drain (Suc k) n s =
      (map GetTag (take n (released_buffers s)) # fst (drain k n s'), snd (drain k n s'))"
    by (simp add: GetTagsAndReleaseBuffers_eq s'_def split: prod.splits)
  have b: "snd (drain k n s') = s'\<lparr>released_buffers := drop (k * n) (released_buffers s')\<rparr>"
    using Suc [of s'] by (rule conjunct1)
  have c: "concat (fst (drain k n s')) = map GetTag (take (k * n) (released_buffers s'))"
    using Suc [of s'] by (rule conjunct2)
  have d: "take (Suc k * n) xs = take n xs @ take (k * n) (drop n xs)" for xs :: "Buffer list"
    by (simp add: take_add)
  have e: "drop (k * n) (drop n xs) = drop (Suc k * n) xs" for xs :: "Buffer list"
    by (simp add: add.commute)
  have "snd (drain (Suc k) n s) = s'\<lparr>released_buffers := drop (Suc k * n) (released_buffers s)\<rparr>"
    unfolding a snd_conv b rel e ..
  then have "snd (drain (Suc k) n s) = s\<lparr>released_buffers := drop (Suc k * n) (released_buffers s)\<rparr>"
    by (simp add: s'_def)
  moreover have "concat (fst (drain (Suc k) n s)) = map GetTag (take (Suc k * n) (released_buffers s))"
    unfolding a fst_conv d concat.simps c rel map_append ..
  ultimately show ?case ..
qed

text \<open>
  C5. For every bound \<open>n\<close> and every released queue, \<^verbatim>\<open>GetTagsAndReleaseBuffers(n)\<close> returns at
  most \<open>n\<close> tags, the tags of the first \<open>n\<close> released buffers in the order of their release, and
  removes exactly those buffers. The results of \<open>k\<close> successive calls, one after the other,
  are the tags of the first \<open>k * n\<close> released buffers, each once and in order; once the calls
  cover the queue they have yielded every released tag, the queue is empty and the next call
  returns nothing.
\<close>

theorem GetTagsAndReleaseBuffers_fifo:
  "length (fst (GetTagsAndReleaseBuffers n s)) \<le> n \<and>
   fst (GetTagsAndReleaseBuffers n s) = map GetTag (take n (released_buffers s)) \<and>
   released_buffers (snd (GetTagsAndReleaseBuffers n s)) = drop n (released_buffers s) \<and>
   concat (fst (drain k n s)) = map GetTag (take (k * n) (released_buffers s)) \<and>
   (length (released_buffers s) \<le> k * n \<longrightarrow>
      concat (fst (drain k n s)) = map GetTag (released_buffers s) \<and>
      released_buffers (snd (drain k n s)) = [] \<and>
      fst (GetTagsAndReleaseBuffers n (snd (drain k n s))) = [])"
proof -
  have "length (fst (GetTagsAndReleaseBuffers n s)) \<le> n"
    by (simp add: GetTagsAndReleaseBuffers_eq)
  moreover have "fst (GetTagsAndReleaseBuffers n s) = map GetTag (take n (released_buffers s))"
    by (simp add: GetTagsAndReleaseBuffers_eq)
  moreover have "released_buffers (snd (GetTagsAndReleaseBuffers n s)) = drop n (released_buffers s)"
    by (simp add: GetTagsAndReleaseBuffers_eq)
  moreover have "concat (fst (drain k n s)) = map GetTag (take (k * n) (released_buffers s))"
    using drain_eq [of k n s] by simp
  moreover have "concat (fst (drain k n s)) = map GetTag (released_buffers s) \<and>
      released_buffers (snd (drain k n s)) = [] \<and>
      fst (GetTagsAndReleaseBuffers n (snd (drain k n s))) = []"
    if "length (released_buffers s) \<le> k * n"
    using that drain_eq [of k n s] by (simp add: GetTagsAndReleaseBuffers_eq)
  ultimately show ?thesis by blast
qed

theorem GetTagsAndReleaseBuffers_fifo_witness:
  "concat (fst (drain 2 2 ((example_stream Playing)
       \<lparr>released_buffers := [example_buffer 10, example_buffer 11, example_buffer 12]\<rparr>))) =
     [10, 11, 12] \<and>
   fst (GetTagsAndReleaseBuffers 2 (snd (drain 2 2 ((example_stream Playing)
       \<lparr>released_buffers := [example_buffer 10, example_buffer 11, example_buffer 12]\<rparr>)))) = []"
  using GetTagsAndReleaseBuffers_fifo [of 2 "(example_stream Playing)
       \<lparr>released_buffers := [example_buffer 10, example_buffer 11, example_buffer 12]\<rparr>" 2]
  by (simp add: example_buffer_def GetTag_def)

lemma PlayNextBuffer_idle:
  "state s \<noteq> Playing \<or> active_buffer s \<noteq> None \<Longrightarrow>
     queued_buffers (PlayNextBuffer d s) = queued_buffers s \<and>
     active_buffer (PlayNextBuffer d s) = active_buffer s \<and>
     state (PlayNextBuffer d s) = state s"
  by (auto simp: PlayNextBuffer_def IsPlaying_def)

lemma QueueBuffers_idle:
  "state s \<noteq> Playing \<or> active_buffer s \<noteq> None \<Longrightarrow>
     fst (QueueBuffers d bs s) = map (\<lambda>i. length (queued_buffers s) + i < 32) [0..<length bs] \<and>
     queued_buffers (snd (QueueBuffers d bs s)) =
       queued_buffers s @ take (32 - length (queued_buffers s)) bs"
proof (induction bs arbitrary: s)
  case Nil
  show ?case by simp
next
  case (Cons b bs)
  show ?case
  proof (cases "length (queued_buffers s) < 32")
    case True
    let ?s' = "PlayNextBuffer d (s\<lparr>queued_buffers := queued_buffers s @ [b]\<rparr>)"
    from Cons.prems have idle: "state (s\<lparr>queued_buffers := queued_buffers s @ [b]\<rparr>) \<noteq> Playing \<or>
        active_buffer (s\<lparr>queued_buffers := queued_buffers s @ [b]\<rparr>) \<noteq> None"
      by simp
    from PlayNextBuffer_idle [OF idle, of d]
    have q: "queued_buffers ?s' = queued_buffers s @ [b]"
      and i': "state ?s' \<noteq> Playing \<or> active_buffer ?s' \<noteq> None"
      using Cons.prems by auto
    have qb: "QueueBuffer d b s = (True, None, ?s')"
      using True by (simp add: QueueBuffer_def MaxAudioBufferCount_def)
    have unfold: "QueueBuffers d (b # bs) s =
        (True # fst (QueueBuffers d bs ?s'), snd (QueueBuffers d bs ?s'))"
      using qb by (simp split: prod.splits)
    from Cons.IH [OF i'] q
    have f: "fst (QueueBuffers d bs ?s') =
               map (\<lambda>i. length (queued_buffers s) + Suc i < 32) [0..<length bs]"
      and k: "queued_buffers (snd (QueueBuffers d bs ?s')) =
               queued_buffers s @ b # take (31 - length (queued_buffers s)) bs"
      by simp_all
    from True have "32 - length (queued_buffers s) = Suc (31 - length (queued_buffers s))"
      by arith
    then have t: "take (32 - length (queued_buffers s)) (b # bs) =
                    b # take (31 - length (queued_buffers s)) bs"
      by simp
    have m: "map (\<lambda>i. length (queued_buffers s) + i < 32) [0..<length (b # bs)] =
             True # map (\<lambda>i. length (queued_buffers s) + Suc i < 32) [0..<length bs]"
      using True by (simp add: map_upt_Suc del: upt_Suc)
    show ?thesis
      unfolding unfold m t using f k by simp
  next
    case False
    then have qb: "QueueBuffer d b s = (False, Some b, s)"
      by (simp add: QueueBuffer_def MaxAudioBufferCount_def)
    have unfold: "QueueBuffers d (b # bs) s =
        (False # fst (QueueBuffers d bs s), snd (QueueBuffers d bs s))"
      using qb by (simp split: prod.splits)
    have m: "map (\<lambda>i. length (queued_buffers s) + i < 32) [0..<length (b # bs)] =
             False # map (\<lambda>i. length (queued_buffers s) + i < 32) [0..<length bs]"
      using False by (simp add: map_upt_Suc del: upt_Suc)
    show ?thesis
      unfolding unfold m using Cons.IH [OF Cons.prems] False by simp
  qed
qed

lemma QueueBuffers_empty:
  assumes "queued_buffers s = []" and "active_buffer s = None"
  shows "fst (QueueBuffers d bs s) =
           map (\<lambda>i. i < (if IsPlaying s then 33 else 32)) [0..<length bs] \<and>
         queued_buffers (snd (QueueBuffers d bs s)) = take 32 (if IsPlaying s then tl bs else bs)"
proof (cases "IsPlaying s")
  case False
  then have "state s \<noteq> Playing \<or> active_buffer s \<noteq> None"
    by (simp add: IsPlaying_def)
  from QueueBuffers_idle [OF this, of d bs] assms False show ?thesis
    by simp
next
  case True
  show ?thesis
  proof (cases bs)
    case Nil
    then show ?thesis using assms by simp
  next
    case (Cons b rest)
    let ?b' = "b\<lparr>buffer_samples := VolumeAdjustSamples d (GetSamples b) (game_volume s)\<rparr>"
    let ?s' = "PlayNextBuffer d (s\<lparr>queued_buffers := queued_buffers s @ [b]\<rparr>)"
    have a: "active_buffer ?s' = Some ?b'" and q: "queued_buffers ?s' = []"
      using True assms by (simp_all add: PlayNextBuffer_def IsPlaying_def Let_def)
    have qb: "QueueBuffer d b s = (True, None, ?s')"
      using assms by (simp add: QueueBuffer_def MaxAudioBufferCount_def)
    have unfold: "QueueBuffers d (b # rest) s =
        (True # fst (QueueBuffers d rest ?s'), snd (QueueBuffers d rest ?s'))"
      using qb by (simp split: prod.splits)
    from a have "state ?s' \<noteq> Playing \<or> active_buffer ?s' \<noteq> None"
      by simp
    from QueueBuffers_idle [OF this, of d rest] q
    have f: "fst (QueueBuffers d rest ?s') = map (\<lambda>i. i < 32) [0..<length rest]"
      and k: "queued_buffers (snd (QueueBuffers d rest ?s')) = take 32 rest"
      by simp_all
    have m: "map (\<lambda>i. i < (33::nat)) [0..<length (b # rest)] =
               True # map (\<lambda>i. i < 32) [0..<length rest]"
      by (simp add: map_upt_Suc del: upt_Suc)
    show ?thesis
      unfolding Cons unfold using True f k m by simp
  qed
qed

text \<open>
  C4 (amended). Starting from a stream with no queued and no active buffer, and with no
  release in between, successive calls of \<^verbatim>\<open>QueueBuffer\<close> succeed for the first 32 buffers. On
  a stream that is not playing the 33rd call fails; a playing stream takes the first buffer
  out of the queue as its active buffer, so there the 33rd call succeeds and the 34th fails.
  The queue then holds the 32 buffers that followed. A call succeeds exactly when fewer than 32
  buffers are queued, and a failing call leaves the stream unchanged and the buffer with the
  caller.
\<close>

theorem QueueBuffer_capacity:
  assumes "queued_buffers s = []" and "active_buffer s = None"
  shows "fst (QueueBuffers d bs s) =
           map (\<lambda>i. i < (if IsPlaying s then 33 else 32)) [0..<length bs] \<and>
         queued_buffers (snd (QueueBuffers d bs s)) = take 32 (if IsPlaying s then tl bs else bs) \<and>
         (fst (QueueBuffer d b t) \<longleftrightarrow> length (queued_buffers t) < 32) \<and>
         (\<not> fst (QueueBuffer d b t) \<longrightarrow> QueueBuffer d b t = (False, Some b, t))"
proof -
  have "fst (QueueBuffer d b t) \<longleftrightarrow> length (queued_buffers t) < 32"
    by (simp add: QueueBuffer_def MaxAudioBufferCount_def)
  moreover have "\<not> fst (QueueBuffer d b t) \<longrightarrow> QueueBuffer d b t = (False, Some b, t)"
    by (simp add: QueueBuffer_def MaxAudioBufferCount_def)
  ultimately show ?thesis
    using QueueBuffers_empty [OF assms, of d bs] by blast
qed

theorem QueueBuffer_capacity_witness:
  "fst (QueueBuffers example_deps (replicate 33 (example_buffer 0)) (example_stream Stopped)) =
     replicate 32 True @ [False] \<and>
   QueueBuffer example_deps (example_buffer 1)
     (snd (QueueBuffers example_deps (replicate 32 (example_buffer 0)) (example_stream Stopped))) =
     (False, Some (example_buffer 1),
      snd (QueueBuffers example_deps (replicate 32 (example_buffer 0)) (example_stream Stopped)))"
proof -
  let ?s = "example_stream Stopped"
  let ?t = "snd (QueueBuffers example_deps (replicate 32 (example_buffer 0)) ?s)"
  have h1: "queued_buffers ?s = []" and h2: "active_buffer ?s = None"
    by (simp_all add: example_stream_def)
  have h3: "\<not> fst (QueueBuffer example_deps (example_buffer 1) ?t)"
    by code_simp
  have e: "map (\<lambda>i. i < (if IsPlaying ?s then 33 else 32))
             [0..<length (replicate 33 (example_buffer 0))] = replicate 32 True @ [False]"
    by code_simp
  from QueueBuffer_capacity [OF h1 h2, of example_deps "replicate 33 (example_buffer 0)"
      "example_buffer 1" ?t] h3 e
  show ?thesis by simp
qed

theorem QueueBuffer_33rd_counterexample:
  "queued_buffers (example_stream Playing) = [] \<and>
   active_buffer (example_stream Playing) = None \<and>
   released_buffers (example_stream Playing) = [] \<and>
   fst (QueueBuffers example_deps (replicate 33 (example_buffer 0)) (example_stream Playing)) =
     replicate 33 True"
  by code_simp

section \<open>Properties of the voices\<close>

lemma array4_at_None: "array4_at a i = None \<longleftrightarrow> 4 \<le> i"
  by (cases a) simp

lemma and3_lt4: "unat (index AND (3 :: size_t)) < 4"
proof -
  have "index AND 3 \<le> (3 :: size_t)"
    by (rule word_and_le1)
  then have "unat (index AND 3) \<le> unat (3 :: size_t)"
    by (simp add: word_le_nat_alt)
  then show ?thesis by simp
qed

lemma and3_mod4: "unat (index AND (3 :: size_t)) = unat index mod 4"
proof -
  have "index AND 3 = take_bit 2 index"
    by (simp add: take_bit_eq_mask mask_eq_exp_minus_1)
  then show ?thesis
    by (simp add: unat_mod take_bit_eq_mod)
qed

lemma RefreshBuffer_wave_index:
  "RefreshBuffer env v = Inr v' \<Longrightarrow> wave_index v' = wave_index v \<and> info v' = info v \<and>
     offset v' = offset v \<and> out_status v' = out_status v \<and> is_in_use v' = is_in_use v \<and>
     \<not> is_refresh_pending v'"
  by (auto simp: RefreshBuffer_def bindE_def Let_def
           split: option.splits sum.splits PcmFormat.splits if_splits prod.splits)

lemma RefreshBuffer_not_IndexOutOfRange:
  "unat (wave_index v) < 4 \<Longrightarrow> RefreshBuffer env v \<noteq> Inl IndexOutOfRange"
  by (auto simp: RefreshBuffer_def bindE_def Let_def array4_at_None
           split: option.splits sum.splits PcmFormat.splits if_splits prod.splits)


lemma DequeueSamples_wave_index:
  assumes "DequeueSamples env n v = Inr (smp, v')" and "unat (wave_index v) < 4"
  shows "unat (wave_index v') < 4"
proof (cases "VoiceState_IsPlaying v")
  case False
  with assms show ?thesis by (simp add: DequeueSamples_def)
next
  case True
  obtain w where w: "(if is_refresh_pending v then RefreshBuffer env v else Inr v) = Inr w"
    using assms(1) True by (cases "if is_refresh_pending v then RefreshBuffer env v else Inr v")
      (simp_all add: DequeueSamples_def bindE_def)
  then have ww: "wave_index w = wave_index v"
    using RefreshBuffer_wave_index [of env v w] by (simp split: if_splits)
  from assms(1) True w have "wave_index v' = wave_index w \<or> wave_index v' = (wave_index w + 1) AND 3"
    by (auto simp: DequeueSamples_def bindE_def Let_def SetWaveIndex_def
             split: option.splits if_splits)
  with ww assms(2) and3_lt4 [of "wave_index w + 1"] show ?thesis
    by auto
qed

lemma DequeueSamples_not_IndexOutOfRange:
  assumes "unat (wave_index v) < 4"
  shows "DequeueSamples env n v \<noteq> Inl IndexOutOfRange"
proof (cases "VoiceState_IsPlaying v")
  case False
  then show ?thesis by (simp add: DequeueSamples_def)
next
  case True
  show ?thesis
  proof (cases "if is_refresh_pending v then RefreshBuffer env v else Inr v")
    case (Inl e)
    then have "e \<noteq> IndexOutOfRange"
      using RefreshBuffer_not_IndexOutOfRange [OF assms, of env] by (auto split: if_splits)
    with Inl True show ?thesis
      by (simp add: DequeueSamples_def bindE_def)
  next
    case (Inr w)
    then have ww: "wave_index w = wave_index v"
      using RefreshBuffer_wave_index [of env v w] by (simp split: if_splits)
    with assms have "array4_at (wave_buffer (info w)) (unat (wave_index w)) \<noteq> None"
      by (simp add: array4_at_None)
    then obtain wb where "array4_at (wave_buffer (info w)) (unat (wave_index w)) = Some wb"
      by auto
    with Inr True show ?thesis
      by (simp add: DequeueSamples_def bindE_def Let_def)
  qed
qed


lemma voice_step_wave_index:
  assumes "voice_step env op v = Inr v'" and "unat (wave_index v) < 4"
  shows "unat (wave_index v') < 4"
proof (cases op)
  case (OpSetInfo i)
  with assms show ?thesis by auto
next
  case OpUpdateState
  with assms show ?thesis by (auto simp: UpdateState_def Let_def)
next
  case (OpSetWaveIndex index)
  with assms and3_lt4 [of index] show ?thesis by (auto simp: SetWaveIndex_def)
next
  case OpRefreshBuffer
  with assms RefreshBuffer_wave_index [of env v v'] show ?thesis by auto
next
  case (OpDequeueSamples n)
  with assms obtain smp where "DequeueSamples env n v = Inr (smp, v')"
    by (auto split: sum.splits)
  from DequeueSamples_wave_index [OF this assms(2)] show ?thesis .
qed

lemma voice_step_not_IndexOutOfRange:
  assumes "unat (wave_index v) < 4"
  shows "voice_step env op v \<noteq> Inl IndexOutOfRange"
proof (cases op)
  case OpRefreshBuffer
  with RefreshBuffer_not_IndexOutOfRange [OF assms, of env] show ?thesis by simp
next
  case (OpDequeueSamples n)
  with DequeueSamples_not_IndexOutOfRange [OF assms, of env n] show ?thesis
    by (auto split: sum.splits)
qed simp_all

lemma voice_run_wave_index:
  "unat (wave_index v) < 4 \<Longrightarrow>
     voice_run ops v \<noteq> Inl IndexOutOfRange \<and>
     (voice_run ops v = Inr v' \<longrightarrow> unat (wave_index v') < 4)"
proof (induction ops arbitrary: v)
  case Nil
  then show ?case by auto
next
  case (Cons a ops)
  obtain env op where a: "a = (env, op)"
    by (cases a)
  show ?case
  proof (cases "voice_step env op v")
    case (Inl e)
    with voice_step_not_IndexOutOfRange [OF Cons.prems, of env op] a show ?thesis
      by auto
  next
    case (Inr w)
    from voice_step_wave_index [OF Inr Cons.prems] have "unat (wave_index w) < 4" .
    from Cons.IH [OF this] Inr a show ?thesis
      by simp
  qed
qed

text \<open>
  C9. The wave index of a voice is always in the range 0 to 3. \<^verbatim>\<open>SetWaveIndex\<close> stores the
  supplied index modulo 4, whatever it is; \<^verbatim>\<open>DequeueSamples\<close> leaves the index or stores
  \<open>(index + 1) AND 3\<close>; deactivation in \<^verbatim>\<open>UpdateState\<close> resets it to 0. Hence after any
  sequence of operations on a freshly constructed voice the index is below 4, the access to
  the ring of four wave buffers is in range, and no operation fails on that index.
\<close>

theorem wave_index_in_range:
  "unat (wave_index (SetWaveIndex index v)) = unat index mod 4 \<and>
   unat (wave_index (SetWaveIndex index v)) < 4 \<and>
   (DequeueSamples env n v = Inr (smp, v') \<longrightarrow>
      wave_index v' = wave_index v \<or> wave_index v' = (wave_index v + 1) AND 3) \<and>
   (is_in_use v \<and> info_is_in_use (info v) = 0 \<longrightarrow> wave_index (UpdateState v) = 0) \<and>
   (voice_run ops (VoiceState_default ad0) = Inr w \<longrightarrow>
      unat (wave_index w) < 4 \<and>
      array4_at (wave_buffer (info w)) (unat (wave_index w)) \<noteq> None) \<and>
   voice_run ops (VoiceState_default ad0) \<noteq> Inl IndexOutOfRange"
proof -
  have a: "unat (wave_index (SetWaveIndex index v)) = unat index mod 4"
    by (simp add: SetWaveIndex_def and3_mod4)
  have b: "unat (wave_index (SetWaveIndex index v)) < 4"
    by (simp add: SetWaveIndex_def and3_lt4)
  have c: "wave_index v' = wave_index v \<or> wave_index v' = (wave_index v + 1) AND 3"
    if d: "DequeueSamples env n v = Inr (smp, v')"
  proof (cases "VoiceState_IsPlaying v")
    case False
    with d show ?thesis by (simp add: DequeueSamples_def)
  next
    case True
    obtain u where u: "(if is_refresh_pending v then RefreshBuffer env v else Inr v) = Inr u"
      using d True by (cases "if is_refresh_pending v then RefreshBuffer env v else Inr v")
        (simp_all add: DequeueSamples_def bindE_def)
    then have "wave_index u = wave_index v"
      using RefreshBuffer_wave_index [of env v u] by (simp split: if_splits)
    moreover from d True u
    have "wave_index v' = wave_index u \<or> wave_index v' = (wave_index u + 1) AND 3"
      by (auto simp: DequeueSamples_def bindE_def Let_def SetWaveIndex_def
               split: option.splits if_splits)
    ultimately show ?thesis by simp
  qed
  have e: "wave_index (UpdateState v) = 0" if "is_in_use v \<and> info_is_in_use (info v) = 0"
    using that by (simp add: UpdateState_def)
  have z: "unat (wave_index (VoiceState_default ad0)) < 4"
    by (simp add: VoiceState_default_def)
  have f: "unat (wave_index w) < 4 \<and>
           array4_at (wave_buffer (info w)) (unat (wave_index w)) \<noteq> None"
    if "voice_run ops (VoiceState_default ad0) = Inr w"
    using that voice_run_wave_index [OF z, of ops w] by (simp add: array4_at_None)
  have g: "voice_run ops (VoiceState_default ad0) \<noteq> Inl IndexOutOfRange"
    using voice_run_wave_index [OF z, of ops w] by simp
  from a b c e f g show ?thesis by blast
qed

theorem wave_index_in_range_witness:
  "DequeueSamples example_env 2
     (SetWaveIndex 6 ((VoiceState_default ())\<lparr>is_in_use := True, info := example_voice_info\<rparr>)) =
   Inr ([20000, 20000, 20000, 20000],
        projr (voice_run [(example_env, OpSetInfo example_voice_info), (example_env, OpUpdateState),
                          (example_env, OpSetWaveIndex 6), (example_env, OpDequeueSamples 2)]
                 (VoiceState_default ()))) \<and>
   unat (wave_index (projr (voice_run
     [(example_env, OpSetInfo example_voice_info), (example_env, OpUpdateState),
      (example_env, OpSetWaveIndex 6), (example_env, OpDequeueSamples 2)]
     (VoiceState_default ())))) = 3 \<and>
   wave_index (UpdateState ((VoiceState_default ())\<lparr>is_in_use := True, wave_index := 2\<rparr>)) = 0"
proof -
  let ?ops = "[(example_env, OpSetInfo example_voice_info), (example_env, OpUpdateState),
               (example_env, OpSetWaveIndex 6), (example_env, OpDequeueSamples 2)]"
  let ?v = "SetWaveIndex 6 ((VoiceState_default ())\<lparr>is_in_use := True, info := example_voice_info\<rparr>)"
  let ?w = "projr (voice_run ?ops (VoiceState_default ()))"
  let ?u = "(VoiceState_default ())\<lparr>is_in_use := True, wave_index := 2\<rparr>"
  have h1: "DequeueSamples example_env 2 ?v = Inr ([20000, 20000, 20000, 20000], ?w)"
    by code_simp
  have h2: "is_in_use ?u \<and> info_is_in_use (info ?u) = 0"
    by code_simp
  have h3: "voice_run ?ops (VoiceState_default ()) = Inr ?w"
    by code_simp
  have h4: "unat (wave_index ?w) = 3"
    by code_simp
  from wave_index_in_range [of 6 ?v example_env 2 "[20000, 20000, 20000, 20000]" ?w ?ops "()" ?w]
    wave_index_in_range [of 6 ?u example_env 2 "[]" ?u "[]" "()" ?u] h1 h2 h3 h4
  show ?thesis by blast
qed

text \<open>
  C8. \<^verbatim>\<open>UpdateState\<close> sets the internal in-use flag to the parsed \<open>is_in_use\<close>, always. When
  the voice was in use and the parsed flag is false it resets the offset and the wave index to
  0 and the output status (played samples, consumed wave buffers, voice drops) to zero, and
  marks a refresh pending; in every other case it leaves the offset, the wave index, the
  output status and the pending flag as they were. The parsed info, the cached samples and the
  codec state are never changed.
\<close>

theorem UpdateState_resets_on_deactivation:
  "is_in_use (UpdateState v) = (info_is_in_use (info v) \<noteq> 0) \<and>
   info (UpdateState v) = info v \<and>
   samples (UpdateState v) = samples v \<and>
   adpcm_state (UpdateState v) = adpcm_state v \<and>
   interp_state (UpdateState v) = interp_state v \<and>
   (if is_in_use v \<and> info_is_in_use (info v) = 0
    then offset (UpdateState v) = 0 \<and>
         wave_index (UpdateState v) = 0 \<and>
         played_sample_count (out_status (UpdateState v)) = 0 \<and>
         wave_buffer_consumed (out_status (UpdateState v)) = 0 \<and>
         voice_drops_count (out_status (UpdateState v)) = 0 \<and>
         is_refresh_pending (UpdateState v)
    else offset (UpdateState v) = offset v \<and>
         wave_index (UpdateState v) = wave_index v \<and>
         out_status (UpdateState v) = out_status v \<and>
         is_refresh_pending (UpdateState v) = is_refresh_pending v)"
  by (simp add: UpdateState_def VoiceOutStatus_default_def)

lemma DequeueSamples_playing:
  assumes playing: "VoiceState_IsPlaying v"
    and deq: "DequeueSamples env n v = Inr (smp, v')"
  obtains u sz wb where
    "(if is_refresh_pending v then RefreshBuffer env v else Inr v) = Inr u"
    "sz = (if n * ucast STREAM_NUM_CHANNELS > of_nat (length (samples u)) - offset u
           then of_nat (length (samples u)) - offset u else n * ucast STREAM_NUM_CHANNELS)"
    "array4_at (wave_buffer (info u)) (unat (wave_index u)) = Some wb"
    "unat (offset u) + unat sz \<le> length (samples u)"
    "smp = take (unat sz) (drop (unat (offset u)) (samples u))"
    "v' = (let v1 = u\<lparr>out_status := (out_status u)
                          \<lparr>played_sample_count :=
                             played_sample_count (out_status u) + sz div ucast STREAM_NUM_CHANNELS\<rparr>,
                        offset := offset u + sz\<rparr>
           in if offset v1 = of_nat (length (samples v1))
              then (let v2 = v1\<lparr>offset := 0\<rparr>;
                        v3 = (if \<not> (is_looping wb \<noteq> 0) \<and> buffer_sz wb \<noteq> 0
                              then SetWaveIndex (wave_index v2 + 1) v2 else v2);
                        v4 = (if buffer_sz wb \<noteq> 0
                              then v3\<lparr>out_status := (out_status v3)
                                     \<lparr>wave_buffer_consumed :=
                                        wave_buffer_consumed (out_status v3) + 1\<rparr>\<rparr>
                              else v3)
                    in (if end_of_stream wb \<noteq> 0 \<or> buffer_sz wb = 0
                        then v4\<lparr>info := (info v4)\<lparr>play_state := PlayState_Paused\<rparr>\<rparr>
                        else v4))
              else v1)"
proof -
  obtain u where u: "(if is_refresh_pending v then RefreshBuffer env v else Inr v) = Inr u"
    using deq playing by (cases "if is_refresh_pending v then RefreshBuffer env v else Inr v")
      (simp_all add: DequeueSamples_def bindE_def)
  define sz where "sz = (if n * ucast STREAM_NUM_CHANNELS > of_nat (length (samples u)) - offset u
           then of_nat (length (samples u)) - offset u else n * ucast STREAM_NUM_CHANNELS)"
  from deq playing u obtain wb where
    wb: "array4_at (wave_buffer (info u)) (unat (wave_index u)) = Some wb"
    by (cases "array4_at (wave_buffer (info u)) (unat (wave_index u))")
       (simp_all add: DequeueSamples_def bindE_def Let_def)
  from deq playing u wb have rng: "unat (offset u) + unat sz \<le> length (samples u)"
    by (simp add: DequeueSamples_def bindE_def Let_def sz_def split: if_splits)
  from deq playing u wb rng have "smp = take (unat sz) (drop (unat (offset u)) (samples u))"
    by (simp add: DequeueSamples_def bindE_def Let_def sz_def split: if_splits)
  moreover from deq playing u wb rng have "v' = (let v1 = u\<lparr>out_status := (out_status u)
                          \<lparr>played_sample_count :=
                             played_sample_count (out_status u) + sz div ucast STREAM_NUM_CHANNELS\<rparr>,
                        offset := offset u + sz\<rparr>
           in if offset v1 = of_nat (length (samples v1))
              then (let v2 = v1\<lparr>offset := 0\<rparr>;
                        v3 = (if \<not> (is_looping wb \<noteq> 0) \<and> buffer_sz wb \<noteq> 0
                              then SetWaveIndex (wave_index v2 + 1) v2 else v2);
                        v4 = (if buffer_sz wb \<noteq> 0
                              then v3\<lparr>out_status := (out_status v3)
                                     \<lparr>wave_buffer_consumed :=
                                        wave_buffer_consumed (out_status v3) + 1\<rparr>\<rparr>
                              else v3)
                    in (if end_of_stream wb \<noteq> 0 \<or> buffer_sz wb = 0
                        then v4\<lparr>info := (info v4)\<lparr>play_state := PlayState_Paused\<rparr>\<rparr>
                        else v4))
              else v1)"
    by (simp add: DequeueSamples_def bindE_def Let_def sz_def split: if_splits)
  ultimately show thesis
    using that [OF u sz_def wb rng] by blast
qed





text \<open>
  C7 (amended). In the update of the voices, a voice whose parsed info is in use and flagged
  new gets its wave index set to the guest-declared head index modulo 4 and a refresh marked
  pending, whether or not it was in use before. Any other voice keeps what \<^verbatim>\<open>UpdateState\<close>
  leaves: the index 0 if it has just been deactivated, and otherwise its previous index; in
  particular a voice that goes from not in use to in use without the new flag keeps its
  index.
\<close>

theorem UpdateVoice_wave_index:
  "is_in_use (UpdateVoice v) = (info_is_in_use (info v) \<noteq> 0) \<and>
   (if info_is_in_use (info v) \<noteq> 0 \<and> is_new (info v) \<noteq> 0
    then unat (wave_index (UpdateVoice v)) = unat (wave_buffer_head (info v)) mod 4 \<and>
         is_refresh_pending (UpdateVoice v)
    else if is_in_use v \<and> info_is_in_use (info v) = 0
    then wave_index (UpdateVoice v) = 0 \<and> is_refresh_pending (UpdateVoice v)
    else wave_index (UpdateVoice v) = wave_index v \<and>
         is_refresh_pending (UpdateVoice v) = is_refresh_pending v)"
proof -
  have "unat (ucast (wave_buffer_head (info v)) AND (3 :: size_t)) =
          unat (wave_buffer_head (info v)) mod 4"
    by (simp add: and3_mod4 unsigned_ucast_eq take_bit_nat_eq_self unsigned_less [THEN less_le_trans])
  then show ?thesis
    by (simp add: UpdateVoice_def UpdateState_def GetInfo_def SetWaveIndex_def Let_def)
qed

theorem UpdateVoice_not_new_counterexample:
  "\<not> is_in_use ((VoiceState_default ())\<lparr>info := example_voice_info\<lparr>is_new := 0, wave_buffer_head := 2\<rparr>\<rparr>) \<and>
   is_in_use (UpdateVoice
     ((VoiceState_default ())\<lparr>info := example_voice_info\<lparr>is_new := 0, wave_buffer_head := 2\<rparr>\<rparr>)) \<and>
   wave_buffer_head (info (UpdateVoice
     ((VoiceState_default ())\<lparr>info := example_voice_info\<lparr>is_new := 0, wave_buffer_head := 2\<rparr>\<rparr>))) = 2 \<and>
   wave_index (UpdateVoice
     ((VoiceState_default ())\<lparr>info := example_voice_info\<lparr>is_new := 0, wave_buffer_head := 2\<rparr>\<rparr>)) = 0 \<and>
   \<not> is_refresh_pending (UpdateVoice
     ((VoiceState_default ())\<lparr>info := example_voice_info\<lparr>is_new := 0, wave_buffer_head := 2\<rparr>\<rparr>))"
  by code_simp

section \<open>Properties of the mixer\<close>

lemma PlayNextBuffer_held:
  "buffers_held (PlayNextBuffer d s) = buffers_held s \<and>
   released_buffers (PlayNextBuffer d s) = released_buffers s"
  by (cases "queued_buffers s")
     (auto simp: PlayNextBuffer_def buffers_held_def Let_def split: option.splits)

lemma AudioOut_QueueBuffer_held:
  "buffers_held (snd (AudioOut_QueueBuffer d s tg data)) \<le> buffers_held s + 1 \<and>
   released_buffers (snd (AudioOut_QueueBuffer d s tg data)) = released_buffers s"
proof (cases "length (queued_buffers s) < MaxAudioBufferCount")
  case True
  let ?s = "s\<lparr>queued_buffers := queued_buffers s @ [\<lparr>buffer_tag = tg, buffer_samples = data\<rparr>]\<rparr>"
  have "buffers_held ?s = buffers_held s + 1" and "released_buffers ?s = released_buffers s"
    by (simp_all add: buffers_held_def)
  with True PlayNextBuffer_held [of d ?s] show ?thesis
    by (simp add: AudioOut_QueueBuffer_def QueueBuffer_def)
next
  case False
  then show ?thesis
    by (simp add: AudioOut_QueueBuffer_def QueueBuffer_def)
qed

lemma QueueMixedBuffer_held:
  assumes "QueueMixedBuffer env tg r = Inr r'"
  shows "buffers_held (stream r') \<le> buffers_held (stream r) + 1 \<and>
         released_buffers (stream r') = released_buffers (stream r)"
proof -
  from assms obtain vs buf where
    "r' = r\<lparr>voices := vs,
            stream := snd (AudioOut_QueueBuffer (stream_deps env) (stream r) tg buf)\<rparr>"
    by (auto simp: QueueMixedBuffer_def Let_def split: sum.splits)
  with AudioOut_QueueBuffer_held [of "stream_deps env" "stream r" tg buf] show ?thesis
    by simp
qed

lemma QueueMixedBuffers_held:
  "QueueMixedBuffers env tags r = Inr r' \<Longrightarrow>
     buffers_held (stream r') \<le> buffers_held (stream r) + length tags \<and>
     released_buffers (stream r') = released_buffers (stream r)"
proof (induction tags arbitrary: r)
  case Nil
  then show ?case by simp
next
  case (Cons tg tags)
  from Cons.prems obtain r1 where
    a: "QueueMixedBuffer env tg r = Inr r1" and b: "QueueMixedBuffers env tags r1 = Inr r'"
    by (auto split: sum.splits)
  from QueueMixedBuffer_held [OF a] Cons.IH [OF b] show ?case
    by simp
qed

text \<open>
  C10. One call of \<^verbatim>\<open>ReleaseAndQueueBuffers\<close> drains the tags of the first two released
  buffers at most, and mixes and queues one frame for each drained tag, whatever the number
  of released buffers: the released queue loses its first two buffers (all of them if there
  are fewer), and the stream holds at most two frames more than before.
\<close>

theorem ReleaseAndQueueBuffers_at_most_two:
  "length (fst (AudioOut_GetTagsAndReleaseBuffers (stream r) 2)) \<le> 2 \<and>
   ReleaseAndQueueBuffers env r =
     QueueMixedBuffers env (map GetTag (take 2 (released_buffers (stream r))))
       (r\<lparr>stream := (stream r)\<lparr>released_buffers := drop 2 (released_buffers (stream r))\<rparr>\<rparr>) \<and>
   (ReleaseAndQueueBuffers env r = Inr r' \<longrightarrow>
      released_buffers (stream r') = drop 2 (released_buffers (stream r)) \<and>
      buffers_held (stream r') \<le> buffers_held (stream r) + 2)"
proof -
  let ?r = "r\<lparr>stream := (stream r)\<lparr>released_buffers := drop 2 (released_buffers (stream r))\<rparr>\<rparr>"
  let ?tags = "map GetTag (take 2 (released_buffers (stream r)))"
  have a: "length (fst (AudioOut_GetTagsAndReleaseBuffers (stream r) 2)) \<le> 2"
    by (simp add: AudioOut_GetTagsAndReleaseBuffers_def GetTagsAndReleaseBuffers_eq)
  have b: "ReleaseAndQueueBuffers env r = QueueMixedBuffers env ?tags ?r"
    by (simp add: ReleaseAndQueueBuffers_def AudioOut_GetTagsAndReleaseBuffers_def
          GetTagsAndReleaseBuffers_eq)
  have c: "released_buffers (stream r') = drop 2 (released_buffers (stream r)) \<and>
      buffers_held (stream r') \<le> buffers_held (stream r) + 2"
    if "ReleaseAndQueueBuffers env r = Inr r'"
  proof -
    from that b have "QueueMixedBuffers env ?tags ?r = Inr r'"
      by simp
    from QueueMixedBuffers_held [OF this]
    have "buffers_held (stream r') \<le> buffers_held (stream ?r) + length ?tags"
      and "released_buffers (stream r') = released_buffers (stream ?r)"
      by simp_all
    moreover have "buffers_held (stream ?r) = buffers_held (stream r)"
      by (simp add: buffers_held_def)
    moreover have "length ?tags \<le> 2"
      by simp
    ultimately show ?thesis
      by simp
  qed
  from a b c show ?thesis by blast
qed

theorem ReleaseAndQueueBuffers_at_most_two_witness:
  "ReleaseAndQueueBuffers example_env (example_renderer []) =
     Inr (projr (QueueMixedBuffers example_env [10, 11]
       ((example_renderer [])\<lparr>stream := (example_stream Playing)
          \<lparr>released_buffers := [example_buffer 12]\<rparr>\<rparr>))) \<and>
   released_buffers (stream (projr (QueueMixedBuffers example_env [10, 11]
       ((example_renderer [])\<lparr>stream := (example_stream Playing)
          \<lparr>released_buffers := [example_buffer 12]\<rparr>\<rparr>)))) = [example_buffer 12] \<and>
   buffers_held (stream (projr (QueueMixedBuffers example_env [10, 11]
       ((example_renderer [])\<lparr>stream := (example_stream Playing)
          \<lparr>released_buffers := [example_buffer 12]\<rparr>\<rparr>)))) \<le> 0 + 2"
proof -
  let ?r = "example_renderer [] :: unit AudioRenderer"
  let ?q = "QueueMixedBuffers example_env [10, 11]
       (?r\<lparr>stream := (example_stream Playing)\<lparr>released_buffers := [example_buffer 12]\<rparr>\<rparr>)"
  note t = ReleaseAndQueueBuffers_at_most_two [of ?r example_env "projr ?q"]
  have "\<not> isl ?q"
    by code_simp
  then have q: "?q = Inr (projr ?q)"
    by (rule sum.collapse(2) [symmetric])
  have tags: "map GetTag (take 2 (released_buffers (stream ?r))) = [10, 11]"
    by code_simp
  have rest: "?r\<lparr>stream := (stream ?r)\<lparr>released_buffers := drop 2 (released_buffers (stream ?r))\<rparr>\<rparr> =
              ?r\<lparr>stream := (example_stream Playing)\<lparr>released_buffers := [example_buffer 12]\<rparr>\<rparr>"
    by (simp add: example_renderer_def)
  have e: "drop 2 (released_buffers (stream ?r)) = [example_buffer 12]"
    by code_simp
  have f: "buffers_held (stream ?r) = 0"
    by code_simp
  have h: "ReleaseAndQueueBuffers example_env ?r = Inr (projr ?q)"
    using conjunct1 [OF conjunct2 [OF t]] q unfolding tags rest by (rule trans)
  from conjunct2 [OF conjunct2 [OF t], THEN mp, OF h]
  have "released_buffers (stream (projr ?q)) = drop 2 (released_buffers (stream ?r)) \<and>
      buffers_held (stream (projr ?q)) \<le> buffers_held (stream ?r) + 2" .
  then have "released_buffers (stream (projr ?q)) = [example_buffer 12] \<and>
      buffers_held (stream (projr ?q)) \<le> 0 + 2"
    unfolding e f .
  with h show ?thesis by (rule conjI)
qed

lemma sint_ClampToS16:
  "sint (ClampToS16 v) = max (- 32768) (min 32767 (sint v))"
proof -
  have a: "sint (scast w :: s16) = sint w" if "- 32768 \<le> sint w" and "sint w \<le> 32767" for w :: s32
    using that by (simp add: signed_scast_eq signed_take_bit_int_eq_self)
  have lo: "sint (- 32768 :: s32) = - 32768" and hi: "sint (32767 :: s32) = 32767"
    by simp_all
  show ?thesis
  proof (cases "v <s (- 32768)")
    case True
    then have "sint v < - 32768"
      by (simp add: word_sless_alt)
    with True a [of "- 32768"] show ?thesis
      by (simp add: ClampToS16_def)
  next
    case False
    then have ge: "- 32768 \<le> sint v"
      by (simp add: word_sless_alt)
    show ?thesis
    proof (cases "32767 <s v")
      case True
      then have "32767 < sint v"
        by (simp add: word_sless_alt)
      with True False a [of 32767] show ?thesis
        by (simp add: ClampToS16_def)
    next
      case F2: False
      then have "sint v \<le> 32767"
        by (simp add: word_sless_alt)
      with F2 False ge a [of v] show ?thesis
        by (simp add: ClampToS16_def)
    qed
  qed
qed

lemma sint_mix_sum:
  fixes b :: s16 and c :: s32
  assumes "- (2 ^ 31) \<le> sint b + sint c" and "sint b + sint c < 2 ^ 31"
  shows "sint (scast b + c :: s32) = sint b + sint c"
proof -
  have "- (2 ^ 15) \<le> sint b" and "sint b < 2 ^ 15"
    using sint_ge [of b] sint_lt [of b] by simp_all
  then have "sint (scast b :: s32) = sint b"
    by (simp add: signed_scast_eq signed_take_bit_int_eq_self)
  then have "sint (scast b + c :: s32) = signed_take_bit 31 (sint b + sint c)"
    by (simp add: sint_word_ariths)
  with assms show ?thesis
    by (simp add: signed_take_bit_int_eq_self)
qed

text \<open>What the inner loop leaves in the frame: each slot it passes holds the clamped 32-bit
  sum of what it held and the scaled sample; the other slots are untouched.\<close>

lemma mix_samples_nth:
  "mix_samples vol mx smp buffer offs = Inr (buffer', offs') \<Longrightarrow>
     (\<forall>i < length smp. \<exists>c.
        MixSample (smp ! i) vol (mx ! ((offs + i) mod 2)) = Inr c \<and>
        buffer' ! (offs + i) = ClampToS16 (scast (buffer ! (offs + i)) + c)) \<and>
     (\<forall>j. j < offs \<or> offs + length smp \<le> j \<longrightarrow> buffer' ! j = buffer ! j)"
proof (induction smp arbitrary: buffer offs)
  case Nil
  then show ?case by simp
next
  case (Cons sample rest)
  from Cons.prems have lt: "offs < length buffer"
    by (simp split: if_splits)
  with Cons.prems obtain c where
    c: "MixSample sample vol (mx ! (offs mod 2)) = Inr c"
    and rec: "mix_samples vol mx rest (buffer[offs := ClampToS16 (scast (buffer ! offs) + c)])
                (offs + 1) = Inr (buffer', offs')"
    by (auto simp: Let_def split: sum.splits)
  let ?b = "buffer[offs := ClampToS16 (scast (buffer ! offs) + c)]"
  note ih = Cons.IH [OF rec]
  have first: "buffer' ! offs = ClampToS16 (scast (buffer ! offs) + c)"
    using ih lt by simp
  have later: "\<exists>d. MixSample (rest ! i) vol (mx ! ((offs + Suc i) mod 2)) = Inr d \<and>
          buffer' ! (offs + Suc i) = ClampToS16 (scast (buffer ! (offs + Suc i)) + d)"
    if "i < length rest" for i
    using ih that by simp
  have other: "buffer' ! j = buffer ! j" if "j < offs \<or> offs + length (sample # rest) \<le> j" for j
    using ih that by auto
  show ?case
  proof (intro conjI allI impI)
    fix i assume "i < length (sample # rest)"
    then show "\<exists>d. MixSample ((sample # rest) ! i) vol (mx ! ((offs + i) mod 2)) = Inr d \<and>
          buffer' ! (offs + i) = ClampToS16 (scast (buffer ! (offs + i)) + d)"
      using first c later by (cases i) simp_all
  next
    fix j assume "j < offs \<or> offs + length (sample # rest) \<le> j"
    then show "buffer' ! j = buffer ! j"
      by (rule other)
  qed
qed

lemma DequeueSamples_info:
  assumes "DequeueSamples env n v = Inr (smp, v')"
  shows "volume (info v') = volume (info v) \<and> voice_id (info v') = voice_id (info v)"
proof (cases "VoiceState_IsPlaying v")
  case False
  with assms show ?thesis by (simp add: DequeueSamples_def)
next
  case True
  from True assms obtain u sz wb where
    u: "(if is_refresh_pending v then RefreshBuffer env v else Inr v) = Inr u"
    and "array4_at (wave_buffer (info u)) (unat (wave_index u)) = Some wb"
    and "unat (offset u) + unat sz \<le> length (samples u)"
    and "smp = take (unat sz) (drop (unat (offset u)) (samples u))"
    and v': "v' = (let v1 = u\<lparr>out_status := (out_status u)
                          \<lparr>played_sample_count :=
                             played_sample_count (out_status u) + sz div ucast STREAM_NUM_CHANNELS\<rparr>,
                        offset := offset u + sz\<rparr>
           in if offset v1 = of_nat (length (samples v1))
              then (let v2 = v1\<lparr>offset := 0\<rparr>;
                        v3 = (if \<not> (is_looping wb \<noteq> 0) \<and> buffer_sz wb \<noteq> 0
                              then SetWaveIndex (wave_index v2 + 1) v2 else v2);
                        v4 = (if buffer_sz wb \<noteq> 0
                              then v3\<lparr>out_status := (out_status v3)
                                     \<lparr>wave_buffer_consumed :=
                                        wave_buffer_consumed (out_status v3) + 1\<rparr>\<rparr>
                              else v3)
                    in (if end_of_stream wb \<noteq> 0 \<or> buffer_sz wb = 0
                        then v4\<lparr>info := (info v4)\<lparr>play_state := PlayState_Paused\<rparr>\<rparr>
                        else v4))
              else v1)"
    by (rule DequeueSamples_playing)
  have "info u = info v"
    using u RefreshBuffer_wave_index [of env v u] by (auto split: if_splits)
  then show ?thesis
    unfolding v' by (simp add: Let_def SetWaveIndex_def)
qed


text \<open>What the loop for one voice leaves in the frame: from its first slot on, one slot for
  each sample it dequeued, holding the clamped 32-bit sum of what it held and the sample
  scaled by the volume of the voice and the gain of its channel for the parity of the slot;
  the other slots are untouched.\<close>

lemma mix_voice_slots:
  "mix_voice env nch chans voice buffer offs rem = Inr (voice', buffer') \<Longrightarrow>
     volume (info voice') = volume (info voice) \<and>
     voice_id (info voice') = voice_id (info voice) \<and>
     (\<exists>smp n.
        smp = dequeued env nch n voice rem \<and>
        (\<forall>i < length smp. \<exists>c.
           MixSample (smp ! i) (volume (info voice))
             (mix (chans ! unat (voice_id (info voice))) ! ((offs + i) mod 2)) = Inr c \<and>
           buffer' ! (offs + i) = ClampToS16 (scast (buffer ! (offs + i)) + c)) \<and>
        (\<forall>j. j < offs \<or> offs + length smp \<le> j \<longrightarrow> buffer' ! j = buffer ! j))"
proof (induction env nch chans voice buffer offs rem arbitrary: voice' buffer'
    rule: mix_voice.induct)
  case (1 env nch chans voice buffer offs rem)
  note prem = "1.prems"
  show ?case
  proof (cases "0 < rem")
    case False
    with prem have "voice' = voice" and "buffer' = buffer"
      by (simp_all add: mix_voice.simps)
    then show ?thesis
      by (intro conjI exI [of _ "[]"] exI [of _ 0]) simp_all
  next
    case True
    show ?thesis
    proof (cases "DequeueSamples env (word_of_int rem) voice")
      case (Inl e)
      with prem True show ?thesis
        by (simp add: mix_voice.simps)
    next
      case (Inr x)
      obtain smp1 v1 where x: "(smp1, v1) = x"
        by (cases x) simp
      have dq: "DequeueSamples env (word_of_int rem) voice = Inr (smp1, v1)"
        using Inr x by simp
      note inf = DequeueSamples_info [OF dq]
      show ?thesis
      proof (cases "smp1 = []")
        case True
        with prem \<open>0 < rem\<close> dq have "voice' = v1" and "buffer' = buffer"
          by (simp_all add: mix_voice.simps)
        with inf show ?thesis
          by (intro conjI exI [of _ "[]"] exI [of _ 0]) simp_all
      next
        case False
        let ?rem = "rem - int (length smp1 div unat nch)"
        let ?mx = "mix (chans ! unat (voice_id (GetInfo v1)))"
        from prem \<open>0 < rem\<close> dq False have idx: "unat (voice_id (GetInfo v1)) < length chans"
          by (simp add: mix_voice.simps Let_def split: if_splits)
        from prem \<open>0 < rem\<close> dq False idx obtain y where
          ms0: "mix_samples (volume (GetInfo v1)) ?mx smp1 buffer offs = Inr y"
          by (cases "mix_samples (volume (GetInfo v1)) ?mx smp1 buffer offs")
             (simp_all add: mix_voice.simps Let_def)
        obtain b1 o1 where y: "(b1, o1) = y"
          by (cases y) simp
        have ms: "mix_samples (volume (info voice)) (mix (chans ! unat (voice_id (info voice))))
                    smp1 buffer offs = Inr (b1, o1)"
          using ms0 y inf by (simp add: GetInfo_def)
        from prem \<open>0 < rem\<close> dq False idx ms0 y
        have rec: "mix_voice env nch chans v1 b1 o1 ?rem = Inr (voice', buffer')"
          by (auto simp: mix_voice.simps [of env nch chans voice] Let_def)
        note ih = "1.IH" [OF \<open>0 < rem\<close> Inr x False refl idx refl ms0 y rec]
        from ih obtain smp2 n2 where
          d2: "smp2 = dequeued env nch n2 v1 ?rem"
          and r1: "\<forall>i < length smp2. \<exists>c.
                 MixSample (smp2 ! i) (volume (info v1))
                   (mix (chans ! unat (voice_id (info v1))) ! ((o1 + i) mod 2)) = Inr c \<and>
                 buffer' ! (o1 + i) = ClampToS16 (scast (b1 ! (o1 + i)) + c)"
          and r2: "\<forall>j. j < o1 \<or> o1 + length smp2 \<le> j \<longrightarrow> buffer' ! j = b1 ! j"
          by blast
        note n1 = mix_samples_nth [OF ms]
        have o1: "o1 = offs + length smp1"
          using mix_samples_Inr [OF ms] by simp
        have slots: "\<exists>c. MixSample ((smp1 @ smp2) ! i) (volume (info voice))
                 (mix (chans ! unat (voice_id (info voice))) ! ((offs + i) mod 2)) = Inr c \<and>
               buffer' ! (offs + i) = ClampToS16 (scast (buffer ! (offs + i)) + c)"
          if i: "i < length (smp1 @ smp2)" for i
        proof (cases "i < length smp1")
          case True
          with n1 obtain c where
            c: "MixSample (smp1 ! i) (volume (info voice))
                  (mix (chans ! unat (voice_id (info voice))) ! ((offs + i) mod 2)) = Inr c"
            and b: "b1 ! (offs + i) = ClampToS16 (scast (buffer ! (offs + i)) + c)"
            by blast
          from True o1 have "offs + i < o1"
            by simp
          with r2 have "buffer' ! (offs + i) = b1 ! (offs + i)"
            by blast
          with True c b show ?thesis
            by (simp add: nth_append)
        next
          case False
          define k where "k = i - length smp1"
          from False i have k: "k < length smp2" and ik: "i = length smp1 + k"
            by (simp_all add: k_def)
          from r1 k obtain c where
            c: "MixSample (smp2 ! k) (volume (info v1))
                  (mix (chans ! unat (voice_id (info v1))) ! ((o1 + k) mod 2)) = Inr c"
            and b: "buffer' ! (o1 + k) = ClampToS16 (scast (b1 ! (o1 + k)) + c)"
            by blast
          from o1 have "offs + length smp1 \<le> o1 + k"
            by simp
          with n1 have "b1 ! (o1 + k) = buffer ! (o1 + k)"
            by blast
          with c b inf o1 ik show ?thesis
            by (simp add: nth_append add.assoc)
        qed
        have rest: "buffer' ! j = buffer ! j" if "j < offs \<or> offs + length (smp1 @ smp2) \<le> j" for j
        proof -
          from that o1 have "j < o1 \<or> o1 + length smp2 \<le> j"
            by auto
          with r2 have "buffer' ! j = b1 ! j"
            by blast
          moreover from that have "j < offs \<or> offs + length smp1 \<le> j"
            by auto
          with n1 have "b1 ! j = buffer ! j"
            by blast
          ultimately show ?thesis by simp
        qed
        from ih inf have "volume (info voice') = volume (info voice) \<and>
            voice_id (info voice') = voice_id (info voice)"
          by simp
        moreover have "smp1 @ smp2 = dequeued env nch (Suc n2) voice rem"
          using \<open>0 < rem\<close> dq False d2 by simp
        ultimately show ?thesis
          using slots rest by (intro conjI exI [of _ "smp1 @ smp2"] exI [of _ "Suc n2"]) blast+
      qed
    qed
  qed
qed


text \<open>The loop over the voices builds the frame through a chain of frames, one step per voice:
  a voice that is not playing leaves the frame as it is, a playing voice is mixed into it
  from slot 0.\<close>

lemma mix_voices_chain:
  "mix_voices env nch chans vs buffer = Inr (vs', buffer') \<Longrightarrow>
     \<exists>frames. length frames = length vs + 1 \<and> frames ! 0 = buffer \<and>
       frames ! length vs = buffer' \<and>
       (\<forall>k < length vs.
          (\<not> VoiceState_IsPlaying (vs ! k) \<longrightarrow> frames ! (k + 1) = frames ! k) \<and>
          (VoiceState_IsPlaying (vs ! k) \<longrightarrow>
             (\<exists>v'. mix_voice env nch chans (vs ! k) (frames ! k) 0 512 = Inr (v', frames ! (k + 1)))))"
proof (induction vs arbitrary: buffer vs')
  case Nil
  then show ?case
    by (auto intro: exI [of _ "[buffer]"])
next
  case (Cons v rest)
  let ?step = "\<lambda>b1. (\<not> VoiceState_IsPlaying v \<longrightarrow> b1 = buffer) \<and>
       (VoiceState_IsPlaying v \<longrightarrow> (\<exists>v'. mix_voice env nch chans v buffer 0 512 = Inr (v', b1)))"
  from Cons.prems obtain b1 rest' where
    st: "?step b1" and rec: "mix_voices env nch chans rest b1 = Inr (rest', buffer')"
    by (auto split: if_splits sum.splits)
  from Cons.IH [OF rec] obtain frames where
    len: "length frames = length rest + 1" and f0: "frames ! 0 = b1"
    and fl: "frames ! length rest = buffer'"
    and ch: "\<forall>k < length rest.
          (\<not> VoiceState_IsPlaying (rest ! k) \<longrightarrow> frames ! (k + 1) = frames ! k) \<and>
          (VoiceState_IsPlaying (rest ! k) \<longrightarrow>
             (\<exists>v'. mix_voice env nch chans (rest ! k) (frames ! k) 0 512 = Inr (v', frames ! (k + 1))))"
    by blast
  let ?F = "buffer # frames"
  have "(\<not> VoiceState_IsPlaying ((v # rest) ! k) \<longrightarrow> ?F ! (k + 1) = ?F ! k) \<and>
        (VoiceState_IsPlaying ((v # rest) ! k) \<longrightarrow>
           (\<exists>v'. mix_voice env nch chans ((v # rest) ! k) (?F ! k) 0 512 = Inr (v', ?F ! (k + 1))))"
    if k: "k < length (v # rest)" for k
  proof (cases k)
    case 0
    with st f0 show ?thesis
      by simp
  next
    case (Suc k')
    with k have "k' < length rest"
      by simp
    with ch Suc show ?thesis
      by simp
  qed
  with len fl show ?case
    by (intro exI [of _ ?F]) simp
qed


text \<open>
  C6 (amended). \<^verbatim>\<open>QueueMixedBuffer\<close> builds the frame from zeros, one playing voice after the
  other, each from slot 0: every sample the loop dequeues from the voice is scaled to
  \<^verbatim>\<open>static_cast<s32>(sample * volume * mix[slot % 2])\<close>, in single precision with the volume
  applied first, added in 32-bit arithmetic to what the slot holds, and the sum is clamped
  to \<open>[-32768, 32767]\<close>; the slots past the samples of a voice keep their value. The slot
  holds the saturated integer sum whenever the 32-bit addition does not overflow. With unit
  volume and gain a sample of 20000 is scaled to 20000, with volume 0.5 to 10000, and two
  playing voices of 20000 with unit volume and gain give 32767 in the slots they share.
\<close>

theorem QueueMixedBuffer_saturates:
  "(QueueMixedBuffer env tg r = Inr r' \<longrightarrow>
      (\<exists>frames vs'.
         length frames = length (voices r) + 1 \<and>
         frames ! 0 = replicate (512 * unat (GetNumChannels (stream r))) 0 \<and>
         r' = r\<lparr>voices := vs',
                stream := snd (AudioOut_QueueBuffer (stream_deps env) (stream r) tg
                                 (frames ! length (voices r)))\<rparr> \<and>
         (\<forall>k < length (voices r).
            (\<not> VoiceState_IsPlaying (voices r ! k) \<longrightarrow> frames ! (k + 1) = frames ! k) \<and>
            (VoiceState_IsPlaying (voices r ! k) \<longrightarrow>
               (\<exists>smp n.
                  smp = dequeued env (GetNumChannels (stream r)) n (voices r ! k) 512 \<and>
                  (\<forall>i < length smp. \<exists>c.
                     MixSample (smp ! i) (volume (info (voices r ! k)))
                       (mix (channels r ! unat (voice_id (info (voices r ! k)))) ! (i mod 2)) = Inr c \<and>
                     frames ! (k + 1) ! i = ClampToS16 (scast (frames ! k ! i) + c)) \<and>
                  (\<forall>j \<ge> length smp. frames ! (k + 1) ! j = frames ! k ! j)))))) \<and>
   (mix_samples vol mx smp buffer offs = Inr (buffer', offs') \<and> i < length smp \<longrightarrow>
      (\<exists>c. MixSample (smp ! i) vol (mx ! ((offs + i) mod 2)) = Inr c \<and>
           buffer' ! (offs + i) = ClampToS16 (scast (buffer ! (offs + i)) + c))) \<and>
   sint (ClampToS16 v) = max (- 32768) (min 32767 (sint v)) \<and>
   (- (2 ^ 31) \<le> sint b + sint c \<and> sint b + sint c < 2 ^ 31 \<longrightarrow>
      sint (ClampToS16 (scast (b :: s16) + c)) = max (- 32768) (min 32767 (sint b + sint c))) \<and>
   MixSample 20000 float_one float_one = Inr 20000 \<and>
   MixSample 20000 0x3f000000 float_one = Inr 10000 \<and>
   \<not> isl (QueueMixedBuffer example_env 7 (example_renderer [example_voice, example_voice])) \<and>
   map_option (\<lambda>frame. take 4 (GetSamples frame))
     (active_buffer (stream (projr
        (QueueMixedBuffer example_env 7 (example_renderer [example_voice, example_voice]))))) =
     Some [32767, 32767, 32767, 32767]"
proof -
  have a: "\<exists>frames vs'.
         length frames = length (voices r) + 1 \<and>
         frames ! 0 = replicate (512 * unat (GetNumChannels (stream r))) 0 \<and>
         r' = r\<lparr>voices := vs',
                stream := snd (AudioOut_QueueBuffer (stream_deps env) (stream r) tg
                                 (frames ! length (voices r)))\<rparr> \<and>
         (\<forall>k < length (voices r).
            (\<not> VoiceState_IsPlaying (voices r ! k) \<longrightarrow> frames ! (k + 1) = frames ! k) \<and>
            (VoiceState_IsPlaying (voices r ! k) \<longrightarrow>
               (\<exists>smp n.
                  smp = dequeued env (GetNumChannels (stream r)) n (voices r ! k) 512 \<and>
                  (\<forall>i < length smp. \<exists>c.
                     MixSample (smp ! i) (volume (info (voices r ! k)))
                       (mix (channels r ! unat (voice_id (info (voices r ! k)))) ! (i mod 2)) = Inr c \<and>
                     frames ! (k + 1) ! i = ClampToS16 (scast (frames ! k ! i) + c)) \<and>
                  (\<forall>j \<ge> length smp. frames ! (k + 1) ! j = frames ! k ! j))))"
    if q: "QueueMixedBuffer env tg r = Inr r'"
  proof -
    let ?zero = "replicate (512 * unat (GetNumChannels (stream r))) (0 :: s16)"
    from q obtain vs' frame where
      mv: "mix_voices env (GetNumChannels (stream r)) (channels r) (voices r) ?zero = Inr (vs', frame)"
      and r': "r' = r\<lparr>voices := vs',
                stream := snd (AudioOut_QueueBuffer (stream_deps env) (stream r) tg frame)\<rparr>"
      by (auto simp: QueueMixedBuffer_def Let_def split: sum.splits)
    from mix_voices_chain [OF mv] obtain frames where
      len: "length frames = length (voices r) + 1" and f0: "frames ! 0 = ?zero"
      and fl: "frames ! length (voices r) = frame"
      and ch: "\<forall>k < length (voices r).
          (\<not> VoiceState_IsPlaying (voices r ! k) \<longrightarrow> frames ! (k + 1) = frames ! k) \<and>
          (VoiceState_IsPlaying (voices r ! k) \<longrightarrow>
             (\<exists>v'. mix_voice env (GetNumChannels (stream r)) (channels r) (voices r ! k)
                     (frames ! k) 0 512 = Inr (v', frames ! (k + 1))))"
      by blast
    have "(\<not> VoiceState_IsPlaying (voices r ! k) \<longrightarrow> frames ! (k + 1) = frames ! k) \<and>
            (VoiceState_IsPlaying (voices r ! k) \<longrightarrow>
               (\<exists>smp n.
                  smp = dequeued env (GetNumChannels (stream r)) n (voices r ! k) 512 \<and>
                  (\<forall>i < length smp. \<exists>c.
                     MixSample (smp ! i) (volume (info (voices r ! k)))
                       (mix (channels r ! unat (voice_id (info (voices r ! k)))) ! (i mod 2)) = Inr c \<and>
                     frames ! (k + 1) ! i = ClampToS16 (scast (frames ! k ! i) + c)) \<and>
                  (\<forall>j \<ge> length smp. frames ! (k + 1) ! j = frames ! k ! j)))"
      if k: "k < length (voices r)" for k
    proof (intro conjI impI)
      assume "\<not> VoiceState_IsPlaying (voices r ! k)"
      with ch k show "frames ! (k + 1) = frames ! k"
        by blast
    next
      assume "VoiceState_IsPlaying (voices r ! k)"
      with ch k obtain v' where
        "mix_voice env (GetNumChannels (stream r)) (channels r) (voices r ! k)
           (frames ! k) 0 512 = Inr (v', frames ! (k + 1))"
        by blast
      from mix_voice_slots [OF this] obtain smp n where
        "smp = dequeued env (GetNumChannels (stream r)) n (voices r ! k) 512"
        "(\<forall>i < length smp. \<exists>c.
            MixSample (smp ! i) (volume (info (voices r ! k)))
              (mix (channels r ! unat (voice_id (info (voices r ! k)))) ! ((0 + i) mod 2)) = Inr c \<and>
            frames ! (k + 1) ! (0 + i) = ClampToS16 (scast (frames ! k ! (0 + i)) + c)) \<and>
         (\<forall>j. j < 0 \<or> 0 + length smp \<le> j \<longrightarrow> frames ! (k + 1) ! j = frames ! k ! j)"
        by blast
      then show "\<exists>smp n.
                  smp = dequeued env (GetNumChannels (stream r)) n (voices r ! k) 512 \<and>
                  (\<forall>i < length smp. \<exists>c.
                     MixSample (smp ! i) (volume (info (voices r ! k)))
                       (mix (channels r ! unat (voice_id (info (voices r ! k)))) ! (i mod 2)) = Inr c \<and>
                     frames ! (k + 1) ! i = ClampToS16 (scast (frames ! k ! i) + c)) \<and>
                  (\<forall>j \<ge> length smp. frames ! (k + 1) ! j = frames ! k ! j)"
        by (intro exI [of _ smp] exI [of _ n]) simp
    qed
    with len f0 fl r' show ?thesis
      by (intro exI [of _ frames] exI [of _ vs']) simp
  qed
  have b: "\<exists>c. MixSample (smp ! i) vol (mx ! ((offs + i) mod 2)) = Inr c \<and>
           buffer' ! (offs + i) = ClampToS16 (scast (buffer ! (offs + i)) + c)"
    if "mix_samples vol mx smp buffer offs = Inr (buffer', offs') \<and> i < length smp"
    using that mix_samples_nth [of vol mx smp buffer offs buffer' offs'] by blast
  have c: "sint (ClampToS16 (scast b + c)) = max (- 32768) (min 32767 (sint b + sint c))"
    if "- (2 ^ 31) \<le> sint b + sint c \<and> sint b + sint c < 2 ^ 31"
    using that sint_mix_sum [of b c] by (simp only: sint_ClampToS16)
  have d: "MixSample 20000 float_one float_one = Inr 20000"
    by code_simp
  have e: "MixSample 20000 0x3f000000 float_one = Inr 10000"
    by code_simp
  have f: "\<not> isl (QueueMixedBuffer example_env 7 (example_renderer [example_voice, example_voice]))"
    by code_simp
  have g: "map_option (\<lambda>frame. take 4 (GetSamples frame))
     (active_buffer (stream (projr
        (QueueMixedBuffer example_env 7 (example_renderer [example_voice, example_voice]))))) =
     Some [32767, 32767, 32767, 32767]"
    by code_simp
  from a b c d e f g sint_ClampToS16 [of v] show ?thesis
    by blast
qed


theorem QueueMixedBuffer_saturates_witness:
  "(\<exists>frames vs'.
      length frames = length (voices (example_renderer [example_voice, example_voice])) + 1 \<and>
      frames ! 0 =
        replicate (512 * unat (GetNumChannels
          (stream (example_renderer [example_voice, example_voice])))) 0 \<and>
      projr (QueueMixedBuffer example_env 7 (example_renderer [example_voice, example_voice])) =
        (example_renderer [example_voice, example_voice])
          \<lparr>voices := vs',
           stream := snd (AudioOut_QueueBuffer (stream_deps example_env)
                            (stream (example_renderer [example_voice, example_voice])) 7
                            (frames ! length (voices (example_renderer [example_voice, example_voice]))))\<rparr> \<and>
      (\<forall>k < length (voices (example_renderer [example_voice, example_voice])).
         (\<not> VoiceState_IsPlaying (voices (example_renderer [example_voice, example_voice]) ! k) \<longrightarrow>
            frames ! (k + 1) = frames ! k) \<and>
         (VoiceState_IsPlaying (voices (example_renderer [example_voice, example_voice]) ! k) \<longrightarrow>
            (\<exists>smp n.
               smp = dequeued example_env
                       (GetNumChannels (stream (example_renderer [example_voice, example_voice]))) n
                       (voices (example_renderer [example_voice, example_voice]) ! k) 512 \<and>
               (\<forall>i < length smp. \<exists>c.
                  MixSample (smp ! i)
                    (volume (info (voices (example_renderer [example_voice, example_voice]) ! k)))
                    (mix (channels (example_renderer [example_voice, example_voice]) !
                            unat (voice_id (info
                              (voices (example_renderer [example_voice, example_voice]) ! k)))) !
                       (i mod 2)) = Inr c \<and>
                  frames ! (k + 1) ! i = ClampToS16 (scast (frames ! k ! i) + c)) \<and>
               (\<forall>j \<ge> length smp. frames ! (k + 1) ! j = frames ! k ! j))))) \<and>
   (\<exists>c. MixSample ([20000, 20000] ! 0) float_one (replicate 24 float_one ! ((0 + 0) mod 2)) = Inr c \<and>
        [32767, 20000] ! (0 + 0) = ClampToS16 (scast ([20000, 0 :: s16] ! (0 + 0)) + c)) \<and>
   sint (ClampToS16 (scast (20000 :: s16) + 20000)) = 32767"
proof -
  let ?r = "example_renderer [example_voice, example_voice]"
  have q: "\<not> isl (QueueMixedBuffer example_env 7 ?r)"
    by code_simp
  then have h: "QueueMixedBuffer example_env 7 ?r = Inr (projr (QueueMixedBuffer example_env 7 ?r))"
    by simp
  have m: "mix_samples float_one (replicate 24 float_one) [20000, 20000] [20000, 0] 0 =
     Inr ([32767, 20000], 2)"
    by code_simp
  have i: "(0 :: nat) < length [20000, 20000 :: s16]"
    by simp
  have s: "sint (20000 :: s16) = 20000" and s': "sint (20000 :: s32) = 20000"
    by simp_all
  have n: "- (2 ^ 31) \<le> sint (20000 :: s16) + sint (20000 :: s32) \<and>
           sint (20000 :: s16) + sint (20000 :: s32) < 2 ^ 31"
    unfolding s s' by simp
  note t = QueueMixedBuffer_saturates [where env = example_env and tg = 7 and r = ?r
      and r' = "projr (QueueMixedBuffer example_env 7 ?r)"
      and vol = float_one and mx = "replicate 24 float_one" and smp = "[20000, 20000]"
      and buffer = "[20000, 0]" and offs = 0 and buffer' = "[32767, 20000]" and offs' = 2
      and i = 0 and v = 0 and b = 20000 and c = 20000]
  note t1 = conjunct1 [OF t, THEN mp, OF h]
  note t2 = conjunct1 [OF conjunct2 [OF t], THEN mp, OF conjI [OF m i]]
  note t4 = conjunct1 [OF conjunct2 [OF conjunct2 [OF conjunct2 [OF t]]], THEN mp, OF n]
  from t4 have "sint (ClampToS16 (scast (20000 :: s16) + 20000)) =
                  max (- 32768) (min 32767 (20000 + 20000))"
    unfolding s s' .
  then have t4': "sint (ClampToS16 (scast (20000 :: s16) + 20000)) = 32767"
    by simp
  show ?thesis
    by (rule conjI [OF t1 conjI [OF t2 t4']])
qed

text \<open>Where the 32-bit addition overflows the slot does not hold the saturated sum. A sample
  of 20000 at volume 107374.0 and unit gain is scaled to 2147480064. One such voice leaves
  32767 in its slots; with a second one the sum \<open>32767 + 2147480064\<close> passes \<open>2 ^ 31\<close>, and
  the slots hold -32768 where the saturated sum is 32767. At volume \<open>2 ^ 31\<close> (bit pattern
  \<open>0x4f000000\<close>) the scaled sample is outside the range of \<^verbatim>\<open>s32\<close> and the conversion is
  undefined.\<close>

theorem QueueMixedBuffer_overflow_counterexample:
  "MixSample 20000 0x47D1B700 float_one = Inr 2147480064 \<and>
   map_option (\<lambda>frame. take 4 (GetSamples frame))
     (active_buffer (stream (projr
        (QueueMixedBuffer example_env 7 (example_renderer [example_voice_loud]))))) =
     Some [32767, 32767, 32767, 32767] \<and>
   \<not> isl (QueueMixedBuffer example_env 7 (example_renderer [example_voice_loud, example_voice_loud])) \<and>
   map_option (\<lambda>frame. take 4 (GetSamples frame))
     (active_buffer (stream (projr
        (QueueMixedBuffer example_env 7 (example_renderer [example_voice_loud, example_voice_loud]))))) =
     Some [- 32768, - 32768, - 32768, - 32768] \<and>
   max (- 32768) (min 32767 (2147480064 + 2147480064 :: int)) = 32767 \<and>
   mix_samples 0x47D1B700 (replicate 24 float_one) [20000] [32767] 0 = Inr ([- 32768], 1) \<and>
   MixSample 20000 0x4f000000 float_one = Inl CastOutOfRange"
proof -
  have a: "MixSample 20000 0x47D1B700 float_one = Inr 2147480064"
    by code_simp
  have b: "map_option (\<lambda>frame. take 4 (GetSamples frame))
     (active_buffer (stream (projr
        (QueueMixedBuffer example_env 7 (example_renderer [example_voice_loud]))))) =
     Some [32767, 32767, 32767, 32767]"
    by code_simp
  have c: "\<not> isl (QueueMixedBuffer example_env 7
                    (example_renderer [example_voice_loud, example_voice_loud]))"
    by code_simp
  have d: "map_option (\<lambda>frame. take 4 (GetSamples frame))
     (active_buffer (stream (projr
        (QueueMixedBuffer example_env 7 (example_renderer [example_voice_loud, example_voice_loud]))))) =
     Some [- 32768, - 32768, - 32768, - 32768]"
    by code_simp
  have e: "max (- 32768) (min 32767 (2147480064 + 2147480064 :: int)) = 32767"
    by simp
  have f: "mix_samples 0x47D1B700 (replicate 24 float_one) [20000] [32767] 0 = Inr ([- 32768], 1)"
    by code_simp
  have g: "MixSample 20000 0x4f000000 float_one = Inl CastOutOfRange"
    by code_simp
  from a b c d e f g show ?thesis
    by (intro conjI)
qed

section \<open>Properties of the update\<close>

lemma rd_u32_cong:
  "xs ! a = ys ! b \<Longrightarrow> xs ! (a + 1) = ys ! (b + 1) \<Longrightarrow> xs ! (a + 2) = ys ! (b + 2) \<Longrightarrow>
   xs ! (a + 3) = ys ! (b + 3) \<Longrightarrow> rd_u32 xs a = rd_u32 ys b"
  by (simp add: rd_u32_def)

lemma rd_u32_take: "a + 4 \<le> n \<Longrightarrow> rd_u32 (take n xs) a = rd_u32 xs a"
  by (rule rd_u32_cong) simp_all

lemma rd_u32_drop: "n + a + 4 \<le> length xs \<Longrightarrow> rd_u32 (drop n xs) a = rd_u32 xs (n + a)"
  by (rule rd_u32_cong) (simp_all add: add.assoc)

lemma rd_u32_append: "rd_u32 (xs @ ys) (length xs + a) = rd_u32 ys a"
  by (rule rd_u32_cong) (simp_all add: nth_append)

lemma rd_u32_prefix: "a + 4 \<le> length xs \<Longrightarrow> rd_u32 (xs @ ys) a = rd_u32 xs a"
  by (rule rd_u32_cong) (simp_all add: nth_append)

lemma rd_wr_u32: "rd_u32 (wr_u32 w @ ys) 0 = w"
proof -
  have "(ucast (ucast w :: u8) :: u32) OR push_bit 8 (ucast (ucast (drop_bit 8 w) :: u8)) OR
        push_bit 16 (ucast (ucast (drop_bit 16 w) :: u8)) OR
        push_bit 24 (ucast (ucast (drop_bit 24 w) :: u8)) = w"
  proof (rule bit_word_eqI)
    fix n :: nat
    assume "n < LENGTH(32)"
    then have n: "n < 32"
      by simp
    consider "n < 8" | "8 \<le> n" "n < 16" | "16 \<le> n" "n < 24" | "24 \<le> n" "n < 32"
      using n by linarith
    then show "bit ((ucast (ucast w :: u8) :: u32) OR push_bit 8 (ucast (ucast (drop_bit 8 w) :: u8)) OR
        push_bit 16 (ucast (ucast (drop_bit 16 w) :: u8)) OR
        push_bit 24 (ucast (ucast (drop_bit 24 w) :: u8))) n = bit w n"
      by cases (auto simp: bit_simps)
  qed
  then show ?thesis
    by (simp add: rd_u32_def wr_u32_def)
qed

lemma length_wr_u32: "length (wr_u32 w) = 4"
  by (simp add: wr_u32_def)


lemma memcpy_to_Inr:
  assumes "memcpy_to out off src = Inr out'"
  shows "length out' = length out" and "take off out' = take off out"
    and "take (length src) (drop off out') = src" and "off + length src \<le> length out"
proof -
  from assms have le: "off + length src \<le> length out"
    and eq: "out' = take off out @ src @ drop (off + length src) out"
    by (simp_all add: memcpy_to_def split: if_splits)
  from le show "off + length src \<le> length out" .
  from le show "length out' = length out"
    unfolding eq by simp
  from le show "take off out' = take off out"
    unfolding eq by simp
  from le show "take (length src) (drop off out') = src"
    unfolding eq by simp
qed

lemma take_take_le: "n \<le> m \<Longrightarrow> take m xs = take m ys \<Longrightarrow> take n xs = take n ys"
  by (metis min.absorb1 take_take)

lemma copy_voice_out_status_Inr:
  "copy_voice_out_status out off vs = Inr out' \<Longrightarrow>
     length out' = length out \<and> take off out' = take off out"
proof (induction vs arbitrary: out off)
  case Nil
  then show ?case by simp
next
  case (Cons v vs)
  from Cons.prems obtain o1 where
    a: "memcpy_to out off (VoiceOutStatus_bytes (GetOutStatus v)) = Inr o1"
    and b: "copy_voice_out_status o1 (off + sizeof_VoiceOutStatus) vs = Inr out'"
    by (auto split: sum.splits)
  from Cons.IH [OF b] have "length out' = length o1"
    and "take (off + sizeof_VoiceOutStatus) out' = take (off + sizeof_VoiceOutStatus) o1"
    by simp_all
  then have "length out' = length o1" and "take off out' = take off o1"
    using take_take_le [of off "off + sizeof_VoiceOutStatus" out' o1] by simp_all
  with memcpy_to_Inr(1,2) [OF a] show ?case
    by simp
qed

lemma copy_effect_out_status_Inr:
  "copy_effect_out_status out off es = Inr out' \<Longrightarrow>
     length out' = length out \<and> take off out' = take off out"
proof (induction es arbitrary: out off)
  case Nil
  then show ?case by simp
next
  case (Cons e es)
  from Cons.prems obtain o1 where
    a: "memcpy_to out off (EffectOutStatus_bytes (effect_out_status e)) = Inr o1"
    and b: "copy_effect_out_status o1 (off + sizeof_EffectOutStatus) es = Inr out'"
    by (auto split: sum.splits)
  from Cons.IH [OF b] have "length out' = length o1"
    and "take (off + sizeof_EffectOutStatus) out' = take (off + sizeof_EffectOutStatus) o1"
    by simp_all
  then have "length out' = length o1" and "take off out' = take off o1"
    using take_take_le [of off "off + sizeof_EffectOutStatus" out' o1] by simp_all
  with memcpy_to_Inr(1,2) [OF a] show ?case
    by simp
qed

lemma length_UpdateDataHeader_bytes: "length (UpdateDataHeader_bytes h) = 0x40"
  by (simp add: UpdateDataHeader_bytes_def length_wr_u32)

lemma rd_total_size: "rd_u32 (UpdateDataHeader_bytes h) 0x3c = total_size h"
proof -
  let ?pre = "wr_u32 (revision h) @ wr_u32 (behavior_size h) @ wr_u32 (memory_pools_size h) @
     wr_u32 (voices_size h) @ wr_u32 (voice_resource_size h) @ wr_u32 (effects_size h) @
     wr_u32 (mixes_size h) @ wr_u32 (sinks_size h) @ wr_u32 (performance_manager_size h) @
     replicate 4 0 @ wr_u32 (frame_count h) @ replicate 16 0"
  have len: "length ?pre = 0x3c"
    by (simp add: length_wr_u32)
  have r: "rd_u32 (?pre @ wr_u32 (total_size h) @ []) (length ?pre + 0) = total_size h"
    by (simp only: rd_u32_append rd_wr_u32)
  show ?thesis
    using r unfolding len by (simp add: UpdateDataHeader_bytes_def)
qed

text \<open>What a successful output half returns: a vector of the unadjusted size, the adjusted
  header in front, and the memory pool entries after it.\<close>

lemma UpdateAudioRenderer_output_Inr:
  assumes "UpdateAudioRenderer_output config memory_pool r = Inr out"
  defines "h0 \<equiv> UpdateDataHeader_ctor (worker_params r)"
  defines "h \<equiv> (if VersionFromRevision (revision config) \<ge> 5
                  then h0\<lparr>frame_count := 0x10, total_size := total_size h0 + 0x10\<rparr> else h0)"
  defines "pool \<equiv> take (unat (memory_pools_size h)) (concat (map MemoryPoolEntry_bytes memory_pool))"
  shows "length out = unat (total_size h0)"
    and "take 0x40 out = UpdateDataHeader_bytes h"
    and "take (length pool) (drop 0x40 out) = pool"
proof -
  from assms(1) obtain o1 o2 o3 where
    o1: "memcpy_to (replicate (unat (total_size h0)) 0) 0 (UpdateDataHeader_bytes h) = Inr o1"
    and o2: "memcpy_to o1 sizeof_UpdateDataHeader pool = Inr o2"
    and o3: "copy_voice_out_status o2 (sizeof_UpdateDataHeader + unat (memory_pools_size h))
               (voices r) = Inr o3"
    and o4: "copy_effect_out_status o3
               (sizeof_UpdateDataHeader + unat (memory_pools_size h) + unat (voices_size h) +
                unat (voice_resource_size h)) (effects r) = Inr out"
    unfolding UpdateAudioRenderer_output_def h0_def h_def pool_def Let_def bindE_def
    by (auto split: sum.splits)
  have s: "sizeof_UpdateDataHeader = 0x40"
    by (simp add: sizeof_UpdateDataHeader_def)
  note m1 = memcpy_to_Inr [OF o1]
  note m2 = memcpy_to_Inr [OF o2]
  note m3 = copy_voice_out_status_Inr [OF o3]
  note m4 = copy_effect_out_status_Inr [OF o4]
  show "length out = unat (total_size h0)"
    using m1(1) m2(1) m3 m4 by simp
  have le: "length pool \<le> unat (memory_pools_size h)"
    unfolding pool_def by simp
  have p3: "take (0x40 + length pool) o3 = take (0x40 + length pool) o2"
    using m3 take_take_le [of "0x40 + length pool" "0x40 + unat (memory_pools_size h)" o3 o2] le s
    by simp
  have p4: "take (0x40 + length pool) out = take (0x40 + length pool) o3"
    using m4 take_take_le [of "0x40 + length pool"
        "0x40 + unat (memory_pools_size h) + unat (voices_size h) + unat (voice_resource_size h)"
        out o3] le s
    by simp
  have pre: "take (0x40 + length pool) out = take (0x40 + length pool) o2"
    using p3 p4 by simp
  have "take 0x40 out = take 0x40 o2"
    using take_take_le [OF _ pre, of "0x40"] by simp
  also have "\<dots> = take 0x40 o1"
    using m2(2) s by simp
  also have "\<dots> = UpdateDataHeader_bytes h"
    using m1(3) by (simp add: length_UpdateDataHeader_bytes)
  finally show "take 0x40 out = UpdateDataHeader_bytes h" .
  have "take (length pool) (drop 0x40 out) = drop 0x40 (take (0x40 + length pool) out)"
    by (simp add: drop_take)
  also have "\<dots> = drop 0x40 (take (0x40 + length pool) o2)"
    using pre by simp
  also have "\<dots> = take (length pool) (drop 0x40 o2)"
    by (simp add: drop_take)
  also have "\<dots> = pool"
    using m2(3) s by simp
  finally show "take (length pool) (drop 0x40 out) = pool" .
qed


lemma QueueMixedBuffers_params:
  "QueueMixedBuffers env tags r = Inr r' \<Longrightarrow>
     worker_params r' = worker_params r \<and> effects r' = effects r"
proof (induction tags arbitrary: r)
  case Nil
  then show ?case by simp
next
  case (Cons tg tags)
  from Cons.prems obtain r1 where
    a: "QueueMixedBuffer env tg r = Inr r1" and b: "QueueMixedBuffers env tags r1 = Inr r'"
    by (auto split: sum.splits)
  from a have "worker_params r1 = worker_params r \<and> effects r1 = effects r"
    by (auto simp: QueueMixedBuffer_def Let_def split: sum.splits)
  with Cons.IH [OF b] show ?case
    by simp
qed

lemma ReleaseAndQueueBuffers_params:
  "ReleaseAndQueueBuffers env r = Inr r' \<Longrightarrow> worker_params r' = worker_params r"
  using QueueMixedBuffers_params [of env _ _ r']
  by (auto simp: ReleaseAndQueueBuffers_def split: prod.splits)

text \<open>What a successful input half yields.\<close>

lemma UpdateAudioRenderer_input_Inr:
  assumes "UpdateAudioRenderer_input env input_params r = Inr (config, memory_pool, r')"
  defines "n \<equiv> unat (effect_count (worker_params r) + (voice_count (worker_params r) * 4))"
  defines "base \<equiv> 0x40 + unat (rd_u32 input_params 4)"
  shows "0x40 \<le> length input_params"
    and "revision config = rd_u32 input_params 0"
    and "worker_params r' = worker_params r"
    and "base + n * 0x20 \<le> length input_params"
    and "memory_pool =
           UpdateMemoryPoolState
             (map (\<lambda>i. MemoryPoolInfo_of_bytes
                          (drop (i * 0x20) (take (n * 0x20) (drop base input_params)))) [0..<n])
             (replicate n MemoryPoolEntry_default)"
proof -
  from assms(1) obtain config_bytes where
    cb: "memcpy_from input_params 0 sizeof_UpdateDataHeader = Inr config_bytes"
    by (cases "memcpy_from input_params 0 sizeof_UpdateDataHeader")
       (simp_all add: UpdateAudioRenderer_input_def bindE_def)
  then have len: "0x40 \<le> length input_params" and cbe: "config_bytes = take 0x40 input_params"
    by (simp_all add: memcpy_from_def sizeof_UpdateDataHeader_def split: if_splits)
  have cfg: "config = UpdateDataHeader_of_bytes config_bytes"
    using assms(1) cb
    by (auto simp: UpdateAudioRenderer_input_def bindE_def Let_def split: sum.splits prod.splits)
  have rev: "revision config = rd_u32 input_params 0"
    unfolding cfg cbe by (simp add: UpdateDataHeader_of_bytes_def rd_u32_take)
  have beh: "behavior_size config = rd_u32 input_params 4"
    unfolding cfg cbe by (simp add: UpdateDataHeader_of_bytes_def rd_u32_take)
  from assms(1) cb cfg obtain pool_bytes where
    pb: "memcpy_from input_params (sizeof_UpdateDataHeader + unat (behavior_size config))
           (n * sizeof_MemoryPoolInfo) = Inr pool_bytes"
    unfolding n_def
    by (cases "memcpy_from input_params (sizeof_UpdateDataHeader + unat (behavior_size config))
           (unat (effect_count (worker_params r) + (voice_count (worker_params r) * 4)) *
            sizeof_MemoryPoolInfo)")
       (simp_all add: UpdateAudioRenderer_input_def bindE_def Let_def)
  then have rng: "base + n * 0x20 \<le> length input_params"
    and pbe: "pool_bytes = take (n * 0x20) (drop base input_params)"
    unfolding base_def beh [symmetric]
    by (simp_all add: memcpy_from_def sizeof_UpdateDataHeader_def sizeof_MemoryPoolInfo_def
          split: if_splits)
  from assms(1) cb cfg pb obtain r1 where
    mp: "memory_pool =
           UpdateMemoryPoolState
             (map (\<lambda>i. MemoryPoolInfo_of_bytes (drop (i * sizeof_MemoryPoolInfo) pool_bytes)) [0..<n])
             (replicate n MemoryPoolEntry_default)"
    and rq: "ReleaseAndQueueBuffers env r1 = Inr r'"
    and wp: "worker_params r1 = worker_params r"
    unfolding n_def
    by (auto simp: UpdateAudioRenderer_input_def bindE_def Let_def split: sum.splits prod.splits)
  show "0x40 \<le> length input_params" by (rule len)
  show "revision config = rd_u32 input_params 0" by (rule rev)
  show "worker_params r' = worker_params r"
    using ReleaseAndQueueBuffers_params [OF rq] wp by simp
  show "base + n * 0x20 \<le> length input_params" by (rule rng)
  show "memory_pool =
           UpdateMemoryPoolState
             (map (\<lambda>i. MemoryPoolInfo_of_bytes
                          (drop (i * 0x20) (take (n * 0x20) (drop base input_params)))) [0..<n])
             (replicate n MemoryPoolEntry_default)"
    using mp unfolding pbe by (simp add: sizeof_MemoryPoolInfo_def)
qed


lemma UpdateAudioRenderer_Inr:
  assumes "UpdateAudioRenderer env input_params r = Inr (output_params, r')"
  obtains config memory_pool where
    "UpdateAudioRenderer_input env input_params r = Inr (config, memory_pool, r')"
    "UpdateAudioRenderer_output config memory_pool r' = Inr output_params"
  using assms
  by (auto simp: UpdateAudioRenderer_def bindE_def split: sum.splits prod.splits)

lemma take_nth_rd_u32:
  assumes "take n xs = ys" and "length ys = n" and "a + 4 \<le> n"
  shows "rd_u32 xs a = rd_u32 ys a"
proof -
  from assms(1) have "rd_u32 ys a = rd_u32 (take n xs) a"
    by simp
  also have "\<dots> = rd_u32 xs a"
    using assms(3) by (rule rd_u32_take)
  finally show ?thesis by simp
qed

lemma response_header:
  assumes "UpdateAudioRenderer env input_params r = Inr (output_params, r')"
  shows "length output_params = unat (total_size (UpdateDataHeader_ctor (worker_params r)))"
    and "rd_u32 output_params 0x3c =
           total_size (UpdateDataHeader_ctor (worker_params r)) +
           (if VersionFromRevision (rd_u32 input_params 0) \<ge> 5 then 0x10 else 0)"
proof -
  from assms obtain config memory_pool where
    i: "UpdateAudioRenderer_input env input_params r = Inr (config, memory_pool, r')"
    and o: "UpdateAudioRenderer_output config memory_pool r' = Inr output_params"
    by (rule UpdateAudioRenderer_Inr)
  note wp = UpdateAudioRenderer_input_Inr(3) [OF i]
  note rv = UpdateAudioRenderer_input_Inr(2) [OF i]
  let ?base = "UpdateDataHeader_ctor (worker_params r)"
  let ?h = "(if VersionFromRevision (rd_u32 input_params 0) \<ge> 5
             then ?base\<lparr>frame_count := 0x10, total_size := total_size ?base + 0x10\<rparr> else ?base)"
  from UpdateAudioRenderer_output_Inr(1) [OF o]
  show "length output_params = unat (total_size ?base)"
    unfolding wp .
  from UpdateAudioRenderer_output_Inr(2) [OF o]
  have t: "take 0x40 output_params = UpdateDataHeader_bytes ?h"
    unfolding wp rv .
  have "rd_u32 output_params 0x3c = rd_u32 (UpdateDataHeader_bytes ?h) 0x3c"
    using t by (rule take_nth_rd_u32) (simp_all add: length_UpdateDataHeader_bytes)
  also have "\<dots> = total_size ?h"
    by (rule rd_total_size)
  finally show "rd_u32 output_params 0x3c =
           total_size ?base + (if VersionFromRevision (rd_u32 input_params 0) \<ge> 5 then 0x10 else 0)"
    by simp
qed

text \<open>
  C1. The vector returned by a successful \<^verbatim>\<open>UpdateAudioRenderer\<close> is created with the
  \<open>total_size\<close> the response header has before the revision adjustment, and the header
  written into it carries the adjusted \<open>total_size\<close>. For an input revision whose version is
  5 or more the header therefore declares 16 bytes more than the vector has: the length of
  the returned blob is not the \<open>total_size\<close> of its header.
\<close>

theorem output_size_before_adjustment:
  "UpdateAudioRenderer env input_params r = Inr (output_params, r') \<longrightarrow>
     length output_params = unat (total_size (UpdateDataHeader_ctor (worker_params r))) \<and>
     rd_u32 output_params 0x3c =
       total_size (UpdateDataHeader_ctor (worker_params r)) +
       (if VersionFromRevision (rd_u32 input_params 0) \<ge> 5 then 0x10 else 0) \<and>
     (if VersionFromRevision (rd_u32 input_params 0) \<ge> 5
      then length output_params \<noteq> unat (rd_u32 output_params 0x3c)
      else length output_params = unat (rd_u32 output_params 0x3c))"
proof
  assume a: "UpdateAudioRenderer env input_params r = Inr (output_params, r')"
  let ?t = "total_size (UpdateDataHeader_ctor (worker_params r))"
  note l = response_header(1) [OF a]
  note h = response_header(2) [OF a]
  have ne: "unat ?t \<noteq> unat (?t + 0x10)"
    by (simp add: word_unat_eq_iff [symmetric])
  show "length output_params = unat ?t \<and>
     rd_u32 output_params 0x3c =
       ?t + (if VersionFromRevision (rd_u32 input_params 0) \<ge> 5 then 0x10 else 0) \<and>
     (if VersionFromRevision (rd_u32 input_params 0) \<ge> 5
      then length output_params \<noteq> unat (rd_u32 output_params 0x3c)
      else length output_params = unat (rd_u32 output_params 0x3c))"
    using l h ne by simp
qed


lemma concat_chunk:
  assumes "\<And>x. length (f x) = k" and "i < length xs"
  shows "take k (drop (k * i) (concat (map f xs))) = f (xs ! i)"
  using assms(2)
proof (induction xs arbitrary: i)
  case Nil
  then show ?case by simp
next
  case (Cons x xs)
  show ?case
  proof (cases i)
    case 0
    then show ?thesis
      using assms(1) [of x] by simp
  next
    case (Suc j)
    with Cons.prems have j: "j < length xs"
      by simp
    have "drop (k * Suc j) (f x @ concat (map f xs)) = drop (k * j) (concat (map f xs))"
      using assms(1) [of x] by simp
    with Cons.IH [OF j] Suc show ?thesis
      by simp
  qed
qed

lemma length_concat_chunks:
  assumes "\<And>x. length (f x) = k"
  shows "length (concat (map f xs)) = k * length xs"
  using assms by (induction xs) simp_all

lemma length_MemoryPoolEntry_bytes: "length (MemoryPoolEntry_bytes e) = 0x10"
  by (simp add: MemoryPoolEntry_bytes_def length_wr_u32)

lemma rd_mpe_state: "rd_u32 (MemoryPoolEntry_bytes e) 0 = mpe_state e"
  unfolding MemoryPoolEntry_bytes_def by (rule rd_wr_u32)

lemma UpdateMemoryPoolState_nth:
  assumes "i < n"
  shows "mpe_state (UpdateMemoryPoolState infos (replicate n MemoryPoolEntry_default) ! i) =
           (if pool_state (infos ! i) = RequestAttach then Attached
            else if pool_state (infos ! i) = RequestDetach then Detached
            else Invalid)"
  using assms
  by (simp add: UpdateMemoryPoolState_def MemoryPoolEntry_default_def Invalid_def)

lemma length_UpdateMemoryPoolState:
  "length (UpdateMemoryPoolState infos pool) = length pool"
  by (simp add: UpdateMemoryPoolState_def)

text \<open>The state word of slot \<open>i\<close> in the output, for a slot whose entry lies inside the
  memory pool section of the response.\<close>

lemma output_pool_state:
  assumes ok: "UpdateAudioRenderer env input_params r = Inr (output_params, r')"
    and slot: "0x10 * (i + 1) \<le> unat (memory_pools_size (UpdateDataHeader_ctor (worker_params r)))"
  shows "rd_u32 output_params (0x40 + 0x10 * i) =
           (if rd_u32 input_params (0x40 + unat (rd_u32 input_params 4) + 0x20 * i + 0x10) = RequestAttach
            then Attached
            else if rd_u32 input_params (0x40 + unat (rd_u32 input_params 4) + 0x20 * i + 0x10) =
                    RequestDetach
            then Detached
            else Invalid)"
proof -
  from ok obtain config memory_pool where
    inp: "UpdateAudioRenderer_input env input_params r = Inr (config, memory_pool, r')"
    and outp: "UpdateAudioRenderer_output config memory_pool r' = Inr output_params"
    by (rule UpdateAudioRenderer_Inr)
  define n where "n = unat (effect_count (worker_params r) + (voice_count (worker_params r) * 4))"
  define base where "base = 0x40 + unat (rd_u32 input_params 4)"
  define infos where "infos =
    map (\<lambda>i. MemoryPoolInfo_of_bytes (drop (i * 0x20) (take (n * 0x20) (drop base input_params))))
      [0..<n]"
  note wp = UpdateAudioRenderer_input_Inr(3) [OF inp]
  note rng = UpdateAudioRenderer_input_Inr(4) [OF inp, folded n_def base_def]
  note mp = UpdateAudioRenderer_input_Inr(5) [OF inp, folded n_def base_def, folded infos_def]
  define mps where "mps = unat (memory_pools_size (UpdateDataHeader_ctor (worker_params r)))"
  have mps_le: "mps \<le> 0x10 * n"
  proof -
    define c where "c = effect_count (worker_params r) + (voice_count (worker_params r) * 4)"
    have "memory_pools_size (UpdateDataHeader_ctor (worker_params r)) = c * 0x10"
      unfolding UpdateDataHeader_ctor_def Let_def c_def by simp
    then have "mps = unat (c * 0x10)"
      by (simp only: mps_def)
    also have "\<dots> = unat c * unat (0x10 :: u32) mod 2 ^ LENGTH(32)"
      by (simp only: unat_word_ariths)
    also have "\<dots> \<le> unat c * unat (0x10 :: u32)"
      by (rule mod_less_eq_dividend)
    also have "\<dots> = 0x10 * n"
      by (simp add: n_def c_def)
    finally show ?thesis .
  qed
  from slot have slot': "0x10 * (i + 1) \<le> mps"
    by (simp add: mps_def)
  with mps_le have i: "i < n"
    by simp
  have len_mp: "length memory_pool = n"
    unfolding mp by (simp add: length_UpdateMemoryPoolState)
  \<comment> \<open>the input side\<close>
  have "pool_state (infos ! i) =
          rd_u32 (drop (i * 0x20) (take (n * 0x20) (drop base input_params))) 0x10"
    using i by (simp add: infos_def MemoryPoolInfo_of_bytes_def)
  also have "\<dots> = rd_u32 (take (n * 0x20) (drop base input_params)) (i * 0x20 + 0x10)"
    using i rng by (intro rd_u32_drop) simp
  also have "\<dots> = rd_u32 (drop base input_params) (i * 0x20 + 0x10)"
    using i by (intro rd_u32_take) simp
  also have "\<dots> = rd_u32 input_params (base + (i * 0x20 + 0x10))"
    using i rng by (intro rd_u32_drop) simp
  finally have guest: "pool_state (infos ! i) =
      rd_u32 input_params (0x40 + unat (rd_u32 input_params 4) + 0x20 * i + 0x10)"
    by (simp add: base_def add.assoc mult.commute)
  \<comment> \<open>the output side\<close>
  define pool where "pool = take mps (concat (map MemoryPoolEntry_bytes memory_pool))"
  have cc: "length (concat (map MemoryPoolEntry_bytes memory_pool)) = 0x10 * n"
    using length_concat_chunks [of MemoryPoolEntry_bytes "0x10" memory_pool] len_mp
    by (simp add: length_MemoryPoolEntry_bytes)
  have len_pool: "length pool = mps"
    unfolding pool_def using cc mps_le by simp
  have hdr: "memory_pools_size
                 (if 5 \<le> VersionFromRevision (revision config)
                  then UpdateDataHeader_ctor (worker_params r')
                       \<lparr>frame_count := 0x10,
                          total_size := total_size (UpdateDataHeader_ctor (worker_params r')) + 0x10\<rparr>
                  else UpdateDataHeader_ctor (worker_params r')) =
             memory_pools_size (UpdateDataHeader_ctor (worker_params r))"
    by (simp add: wp)
  from UpdateAudioRenderer_output_Inr(3) [OF outp]
  have tk: "take (length pool) (drop 0x40 output_params) = pool"
    unfolding hdr pool_def mps_def .
  have ge: "0x40 + mps \<le> length output_params"
  proof -
    from UpdateAudioRenderer_output_Inr(2) [OF outp]
    have "length (take 0x40 output_params) = 0x40"
      by (simp only: length_UpdateDataHeader_bytes)
    then have a: "0x40 \<le> length output_params"
      by simp
    from tk have "length (take (length pool) (drop 0x40 output_params)) = length pool"
      by simp
    then have "mps \<le> length output_params - 0x40"
      using len_pool by simp
    with a show ?thesis
      by simp
  qed
  have "rd_u32 output_params (0x40 + 0x10 * i) = rd_u32 (drop 0x40 output_params) (0x10 * i)"
    using ge slot' by (intro rd_u32_drop [symmetric]) simp
  also have "\<dots> = rd_u32 pool (0x10 * i)"
    using tk by (rule take_nth_rd_u32) (use len_pool slot' in simp_all)
  also have "\<dots> = rd_u32 (concat (map MemoryPoolEntry_bytes memory_pool)) (0x10 * i)"
    unfolding pool_def using slot' by (intro rd_u32_take) simp
  also have "\<dots> = rd_u32 (drop (0x10 * i) (concat (map MemoryPoolEntry_bytes memory_pool))) 0"
    using cc i by (subst rd_u32_drop) simp_all
  also have "\<dots> = rd_u32 (take 0x10 (drop (0x10 * i) (concat (map MemoryPoolEntry_bytes memory_pool)))) 0"
    by (subst rd_u32_take) simp_all
  also have "\<dots> = rd_u32 (MemoryPoolEntry_bytes (memory_pool ! i)) 0"
    using concat_chunk [of MemoryPoolEntry_bytes "0x10" i memory_pool] i len_mp
    by (simp add: length_MemoryPoolEntry_bytes)
  also have "\<dots> = mpe_state (memory_pool ! i)"
    by (rule rd_mpe_state)
  also have "\<dots> = (if pool_state (infos ! i) = RequestAttach then Attached
            else if pool_state (infos ! i) = RequestDetach then Detached
            else Invalid)"
    unfolding mp using i by (rule UpdateMemoryPoolState_nth)
  finally show ?thesis
    unfolding guest .
qed


lemma UpdateAudioRenderer_params:
  assumes "UpdateAudioRenderer env input_params r = Inr (output_params, r')"
  shows "worker_params r' = worker_params r"
proof -
  from assms obtain config memory_pool where
    "UpdateAudioRenderer_input env input_params r = Inr (config, memory_pool, r')"
    by (rule UpdateAudioRenderer_Inr)
  then show ?thesis
    by (rule UpdateAudioRenderer_input_Inr(3))
qed

lemma not_isl_Inr: "\<not> isl x \<Longrightarrow> x = Inr (fst (projr x), snd (projr x))"
  by (cases x) simp_all

text \<open>The example update succeeds on the renderer the constructor builds, and so does a second
  update after it.\<close>

lemma example_update_renderer_params:
  "worker_params example_update_renderer = example_update_params"
  by code_simp

lemma example_update_succeeds:
  "\<not> isl (UpdateAudioRenderer example_env (example_update_input REV5 RequestAttach)
            example_update_renderer)"
  by code_simp

lemma example_second_update_succeeds:
  "\<not> isl (UpdateAudioRenderer example_env (example_update_input REV5 Attached)
            (snd (projr (UpdateAudioRenderer example_env (example_update_input REV5 RequestAttach)
                           example_update_renderer))))"
  by code_simp

lemma example_update_facts:
  "unat (total_size (UpdateDataHeader_ctor example_update_params)) = 320"
  "total_size (UpdateDataHeader_ctor example_update_params) + 0x10 = 336"
  "VersionFromRevision (rd_u32 (example_update_input REV5 st) 0) \<ge> 5"
  "0x10 * (0 + 1) \<le> unat (memory_pools_size (UpdateDataHeader_ctor example_update_params))"
  "rd_u32 (example_update_input rv st) (0x40 + unat (rd_u32 (example_update_input rv st) 4) + 0x20 * 0 + 0x10) = st"
proof -
  show "unat (total_size (UpdateDataHeader_ctor example_update_params)) = 320"
    by code_simp
  show "total_size (UpdateDataHeader_ctor example_update_params) + 0x10 = 336"
    by code_simp
  have r: "rd_u32 (example_update_input rv' st') 0 = rv'" for rv' st'
    unfolding example_update_input_def append_assoc by (rule rd_wr_u32)
  have "VersionFromRevision REV5 \<ge> 5"
    by code_simp
  then show "VersionFromRevision (rd_u32 (example_update_input REV5 st) 0) \<ge> 5"
    unfolding r .
  show "0x10 * (0 + 1) \<le> unat (memory_pools_size (UpdateDataHeader_ctor example_update_params))"
    by code_simp
  have b: "rd_u32 (example_update_input rv st) 4 = 0"
  proof -
    have "rd_u32 (wr_u32 rv @ wr_u32 0 @ wr_u32 0x20 @ replicate 0x34 0 @
                  (replicate 0x10 0 @ wr_u32 st @ replicate 0xc 0) @ replicate 0xc0 0)
            (length (wr_u32 rv) + 0) = 0"
      unfolding rd_u32_append by (rule rd_wr_u32)
    then show ?thesis
      by (simp add: example_update_input_def length_wr_u32)
  qed
  have "rd_u32 (((wr_u32 rv @ wr_u32 0 @ wr_u32 0x20 @ replicate 0x34 0) @ replicate 0x10 0) @
                wr_u32 st @ replicate 0xc 0 @ replicate 0xc0 0)
          (length ((wr_u32 rv @ wr_u32 0 @ wr_u32 0x20 @ replicate 0x34 0) @ replicate 0x10 0) + 0) = st"
    unfolding rd_u32_append by (rule rd_wr_u32)
  then have "rd_u32 (example_update_input rv st) 0x50 = st"
    by (simp add: example_update_input_def length_wr_u32)
  then show "rd_u32 (example_update_input rv st)
          (0x40 + unat (rd_u32 (example_update_input rv st) 4) + 0x20 * 0 + 0x10) = st"
    unfolding b by simp
qed


theorem output_size_before_adjustment_witness:
  "UpdateAudioRenderer example_env (example_update_input REV5 RequestAttach) example_update_renderer =
     Inr (fst (projr (UpdateAudioRenderer example_env (example_update_input REV5 RequestAttach)
                        example_update_renderer)),
          snd (projr (UpdateAudioRenderer example_env (example_update_input REV5 RequestAttach)
                        example_update_renderer))) \<and>
   length (fst (projr (UpdateAudioRenderer example_env (example_update_input REV5 RequestAttach)
                         example_update_renderer))) = 320 \<and>
   rd_u32 (fst (projr (UpdateAudioRenderer example_env (example_update_input REV5 RequestAttach)
                         example_update_renderer))) 0x3c = 336"
proof -
  let ?u = "UpdateAudioRenderer example_env (example_update_input REV5 RequestAttach)
              example_update_renderer"
  have h: "?u = Inr (fst (projr ?u), snd (projr ?u))"
    using example_update_succeeds by (rule not_isl_Inr)
  note t = output_size_before_adjustment [of example_env "example_update_input REV5 RequestAttach"
      example_update_renderer "fst (projr ?u)" "snd (projr ?u)", THEN mp, OF h]
  from conjunct1 [OF t] have l: "length (fst (projr ?u)) = 320"
    unfolding example_update_renderer_params example_update_facts(1) .
  from conjunct1 [OF conjunct2 [OF t]] have f: "rd_u32 (fst (projr ?u)) 0x3c = 336"
    unfolding example_update_renderer_params if_P [OF example_update_facts(3)]
      example_update_facts(2) .
  from h l f show ?thesis by (intro conjI)
qed

text \<open>
  C3 (amended). For every memory-pool slot whose entry lies in the memory pool section of the
  response, the state of the returned \<^verbatim>\<open>MemoryPoolEntry\<close> is Attached when the guest-supplied
  pool state is RequestAttach, Detached when it is RequestDetach, and Invalid for every other
  guest-supplied state: the entries are value-initialised in every update, so nothing is
  carried over from an earlier update and no other guest state passes through.
\<close>

theorem memory_pool_entry_states:
  "UpdateAudioRenderer env input_params r = Inr (output_params, r') \<and>
   0x10 * (i + 1) \<le> unat (memory_pools_size (UpdateDataHeader_ctor (worker_params r))) \<longrightarrow>
     rd_u32 output_params (0x40 + 0x10 * i) =
       (if rd_u32 input_params (0x40 + unat (rd_u32 input_params 4) + 0x20 * i + 0x10) = RequestAttach
        then Attached
        else if rd_u32 input_params (0x40 + unat (rd_u32 input_params 4) + 0x20 * i + 0x10) =
                RequestDetach
        then Detached
        else Invalid)"
  using output_pool_state [of env input_params r output_params r' i] by blast

theorem memory_pool_entry_states_witness:
  "rd_u32 (fst (projr (UpdateAudioRenderer example_env (example_update_input REV5 RequestAttach)
                         example_update_renderer))) (0x40 + 0x10 * 0) = Attached"
proof -
  let ?u = "UpdateAudioRenderer example_env (example_update_input REV5 RequestAttach)
              example_update_renderer"
  have h: "?u = Inr (fst (projr ?u), snd (projr ?u))"
    using example_update_succeeds by (rule not_isl_Inr)
  have slot: "0x10 * (0 + 1) \<le>
      unat (memory_pools_size (UpdateDataHeader_ctor (worker_params example_update_renderer)))"
    unfolding example_update_renderer_params by (rule example_update_facts(4))
  note t = memory_pool_entry_states [of example_env "example_update_input REV5 RequestAttach"
      example_update_renderer "fst (projr ?u)" "snd (projr ?u)" 0, THEN mp, OF conjI [OF h slot]]
  then show ?thesis
    unfolding example_update_facts(5) by simp
qed

theorem memory_pool_state_not_kept_counterexample:
  "rd_u32 (fst (projr (UpdateAudioRenderer example_env (example_update_input REV5 RequestAttach)
                         example_update_renderer))) 0x40 = Attached \<and>
   rd_u32 (example_update_input REV5 Attached) 0x50 = Attached \<and>
   rd_u32 (fst (projr (UpdateAudioRenderer example_env (example_update_input REV5 Attached)
      (snd (projr (UpdateAudioRenderer example_env (example_update_input REV5 RequestAttach)
                     example_update_renderer)))))) 0x40 = Invalid \<and>
   Invalid \<noteq> Attached"
proof -
  let ?u = "UpdateAudioRenderer example_env (example_update_input REV5 RequestAttach)
              example_update_renderer"
  let ?v = "UpdateAudioRenderer example_env (example_update_input REV5 Attached) (snd (projr ?u))"
  have hu: "?u = Inr (fst (projr ?u), snd (projr ?u))"
    using example_update_succeeds by (rule not_isl_Inr)
  have hv: "?v = Inr (fst (projr ?v), snd (projr ?v))"
    using example_second_update_succeeds by (rule not_isl_Inr)
  have pu: "worker_params (snd (projr ?u)) = example_update_params"
    using UpdateAudioRenderer_params [OF hu] by (simp only: example_update_renderer_params)
  have su: "0x10 * (0 + 1) \<le>
      unat (memory_pools_size (UpdateDataHeader_ctor (worker_params example_update_renderer)))"
    unfolding example_update_renderer_params by (rule example_update_facts(4))
  have sv: "0x10 * (0 + 1) \<le>
      unat (memory_pools_size (UpdateDataHeader_ctor (worker_params (snd (projr ?u)))))"
    unfolding pu by (rule example_update_facts(4))
  have ne: "Invalid \<noteq> Attached" "Attached \<noteq> RequestAttach" "Attached \<noteq> RequestDetach"
    by (simp_all add: Invalid_def Attached_def RequestAttach_def RequestDetach_def)
  have a: "rd_u32 (fst (projr ?u)) 0x40 = Attached"
    using output_pool_state [OF hu su] unfolding example_update_facts(5) by simp
  have b: "rd_u32 (fst (projr ?v)) 0x40 = Invalid"
    using output_pool_state [OF hv sv] ne unfolding example_update_facts(5) by simp
  have c: "rd_u32 (example_update_input REV5 Attached) 0x50 = Attached"
    by code_simp
  from a c b ne(1) show ?thesis by (intro conjI)
qed

end
